theory Spec2Isabelle
  imports Main "HOL-Library.Char_ord" "HOL-Library.List_Lexorder"
begin

section \<open>The works catalogue of the artist's site (pages/LObra.tsx)\<close>

text \<open>
  The page module builds the list of works (\<open>buildWorks\<close>), keeps the selection and the
  carousel index (\<open>LObra\<close>), geocodes addresses for the map (\<open>MapView\<close>) and buckets the
  works by year and month (\<open>monthToIndex\<close>, \<open>TimelineView\<close>).

  Conventions of the embedding.
  \<^item> A JavaScript string is a \<open>string\<close>: a list of 8-bit characters, read as the code
    points below 256 (Latin-1), so that \<open>mar\<ccedil>\<close> ends in \<open>CHR 0xE7\<close>.
  \<^item> A \<open>number\<close> read from the metadata (a year, a month) is an \<open>int\<close>: the values are
    integral and far inside the range where double arithmetic is exact.
  \<^item> An optional field (\<open>city?: string\<close>) is an \<open>option\<close>; \<open>undefined\<close> and \<open>null\<close> are
    \<open>None\<close>. A JSON file without \<open>nom\<close> is read as one with the empty \<open>nom\<close>: the code
    tests \<open>nom\<close> for truthiness only.
  \<^item> An object used as a dictionary (\<open>worksByFolder\<close>, \<open>albumByFolder\<close>) is an association
    list in the order in which the keys were created; \<open>ownEntries\<close> gives the order in which
    \<open>Object.entries\<close> and \<open>Object.values\<close> enumerate it. Folder names and queries that are
    names of members of \<open>Object.prototype\<close> are not covered by the dictionaries of
    \<open>buildWorks\<close> and of the geocoder; the month table of \<open>monthToIndex\<close> does cover them.
  \<^item> \<open>String.prototype.localeCompare\<close> belongs to the host, not to the repository. It is
    the parameter \<open>lc\<close> of every function that calls it; \<open>codeCompare\<close> is the instance
    used where a concrete input is evaluated.
  \<^item> \<open>Array.prototype.sort\<close> is a stable sort by a comparator whose sign decides
    (\<open>sortBy\<close>). Where the comparator is not consistent, an engine may return another
    order than \<open>sortBy\<close> does.
  \<^item> \<open>localStorage.setItem\<close> is taken to succeed, and the drawing of the markers that
    follows the loop of \<open>run\<close> is not part of the embedding: \<open>mapView\<close> is the list of
    works the markers are drawn from.
\<close>

subsection \<open>Strings\<close>

text \<open>Truthiness of an optional string: \<open>undefined\<close> and the empty string are falsy.\<close>

definition truthy :: "string option \<Rightarrow> bool" where
  "truthy v = (case v of None \<Rightarrow> False | Some s \<Rightarrow> s \<noteq> [])"

text \<open>\<open>a || b\<close> on optional strings.\<close>

definition orElse :: "string option \<Rightarrow> string option \<Rightarrow> string option" where
  "orElse a b = (if truthy a then a else b)"

definition upperChars :: "char list" where
  "upperChars = ''ABCDEFGHIJKLMNOPQRSTUVWXYZ'' @
     [CHR 0xC0, CHR 0xC1, CHR 0xC2, CHR 0xC3, CHR 0xC4, CHR 0xC5, CHR 0xC6, CHR 0xC7,
      CHR 0xC8, CHR 0xC9, CHR 0xCA, CHR 0xCB, CHR 0xCC, CHR 0xCD, CHR 0xCE, CHR 0xCF,
      CHR 0xD0, CHR 0xD1, CHR 0xD2, CHR 0xD3, CHR 0xD4, CHR 0xD5, CHR 0xD6,
      CHR 0xD8, CHR 0xD9, CHR 0xDA, CHR 0xDB, CHR 0xDC, CHR 0xDD, CHR 0xDE]"

definition lowerChars :: "char list" where
  "lowerChars = ''abcdefghijklmnopqrstuvwxyz'' @
     [CHR 0xE0, CHR 0xE1, CHR 0xE2, CHR 0xE3, CHR 0xE4, CHR 0xE5, CHR 0xE6, CHR 0xE7,
      CHR 0xE8, CHR 0xE9, CHR 0xEA, CHR 0xEB, CHR 0xEC, CHR 0xED, CHR 0xEE, CHR 0xEF,
      CHR 0xF0, CHR 0xF1, CHR 0xF2, CHR 0xF3, CHR 0xF4, CHR 0xF5, CHR 0xF6,
      CHR 0xF8, CHR 0xF9, CHR 0xFA, CHR 0xFB, CHR 0xFC, CHR 0xFD, CHR 0xFE]"

text \<open>\<open>toLowerCase\<close> on Latin-1: A-Z and the accented capitals (all of 0xC0-0xDE but the
  multiplication sign 0xD7) move to their lower-case letters; nothing else changes.\<close>

definition lowerChar :: "char \<Rightarrow> char" where
  "lowerChar c = (case map_of (zip upperChars lowerChars) c of Some l \<Rightarrow> l | None \<Rightarrow> c)"

definition toLowerCase :: "string \<Rightarrow> string" where
  "toLowerCase s = map lowerChar s"

text \<open>White space and line terminators of ECMAScript below 256: TAB, LF, VT, FF, CR,
  space and the no-break space.\<close>

definition isWhite :: "char \<Rightarrow> bool" where
  "isWhite c = (c \<in> set [CHR 0x09, CHR 0x0A, CHR 0x0B, CHR 0x0C, CHR 0x0D, CHR 0x20, CHR 0xA0])"

definition trim :: "string \<Rightarrow> string" where
  "trim s = rev (dropWhile isWhite (rev (dropWhile isWhite s)))"

definition isDigit :: "char \<Rightarrow> bool" where
  "isDigit c = (c \<in> set ''0123456789'')"

definition digitVal :: "char \<Rightarrow> nat" where
  "digitVal c = of_char c - 48"

definition digitsVal :: "string \<Rightarrow> nat" where
  "digitsVal ds = foldl (\<lambda>acc c. 10 * acc + digitVal c) 0 ds"

text \<open>\<open>parseInt(s, 10)\<close>: leading white space is skipped, then an optional sign, then the
  longest run of decimal digits; \<open>None\<close> is NaN (no digit there).\<close>

definition parseInt :: "string \<Rightarrow> int option" where
  "parseInt s =
     (let t = dropWhile isWhite s;
          neg = (case t of [] \<Rightarrow> False | c # _ \<Rightarrow> c = CHR ''-'');
          r = (case t of [] \<Rightarrow> [] | c # cs \<Rightarrow> if c = CHR ''-'' \<or> c = CHR ''+'' then cs else t);
          ds = takeWhile isDigit r
      in if ds = [] then None
         else Some (if neg then - int (digitsVal ds) else int (digitsVal ds)))"

text \<open>\<open>s.split(c)\<close> for a one-character separator: never empty, \<open>''''.split(c) = ['''']\<close>.\<close>

fun jsSplit :: "char \<Rightarrow> string \<Rightarrow> string list" where
  "jsSplit c [] = [[]]"
| "jsSplit c (x # xs) =
     (if x = c then [] # jsSplit c xs
      else (case jsSplit c xs of [] \<Rightarrow> [[x]] | p # ps \<Rightarrow> (x # p) # ps))"

definition startsWith :: "string \<Rightarrow> string \<Rightarrow> bool" where
  "startsWith p s = (take (length p) s = p)"

text \<open>The instance of \<open>localeCompare\<close> for concrete inputs: the order of the character
  codes, as \<open>-1\<close>, \<open>0\<close> or \<open>1\<close>. On the lower-case ASCII words and on the capitalised
  words used below it has the sign that \<open>localeCompare\<close> has.\<close>

definition codeCompare :: "string \<Rightarrow> string \<Rightarrow> int" where
  "codeCompare a b = (if a < b then - 1 else if b < a then 1 else 0)"

subsection \<open>Arrays and dictionary objects\<close>

text \<open>\<open>xs.sort(cmp)\<close>: \<open>cmp a b > 0\<close> puts \<open>a\<close> behind \<open>b\<close>; equal elements keep their
  order. ECMAScript fixes the result for a consistent comparator only; on the two-element
  lists evaluated below every implementation agrees.\<close>

fun insertBy :: "('a \<Rightarrow> 'a \<Rightarrow> int) \<Rightarrow> 'a \<Rightarrow> 'a list \<Rightarrow> 'a list" where
  "insertBy cmp x [] = [x]"
| "insertBy cmp x (y # ys) = (if cmp x y \<le> 0 then x # y # ys else y # insertBy cmp x ys)"

definition sortBy :: "('a \<Rightarrow> 'a \<Rightarrow> int) \<Rightarrow> 'a list \<Rightarrow> 'a list" where
  "sortBy cmp xs = foldr (insertBy cmp) xs []"

text \<open>\<open>obj[k] = v\<close> and \<open>map.set(k, v)\<close>: an existing key keeps its place, a new key goes
  to the end. \<open>map_of\<close> reads a key.\<close>

fun objSet :: "'k \<Rightarrow> 'a \<Rightarrow> ('k \<times> 'a) list \<Rightarrow> ('k \<times> 'a) list" where
  "objSet k v [] = [(k, v)]"
| "objSet k v (kv # kvs) = (if fst kv = k then (k, v) # kvs else kv # objSet k v kvs)"

text \<open>A key that is an array index (the canonical decimal of an integer up to
  \<open>2^32 - 2\<close>) is enumerated before every other key, in ascending numeric order; the
  other keys follow in creation order.\<close>

definition isArrayIndex :: "string \<Rightarrow> bool" where
  "isArrayIndex k =
     (k \<noteq> [] \<and> list_all isDigit k \<and> (k = ''0'' \<or> take 1 k \<noteq> ''0'') \<and> digitsVal k \<le> 4294967294)"

definition ownEntries :: "(string \<times> 'a) list \<Rightarrow> (string \<times> 'a) list" where
  "ownEntries obj =
     sortBy (\<lambda>a b. int (digitsVal (fst a)) - int (digitsVal (fst b)))
       (filter (\<lambda>kv. isArrayIndex (fst kv)) obj)
     @ filter (\<lambda>kv. \<not> isArrayIndex (fst kv)) obj"

definition objValues :: "(string \<times> 'a) list \<Rightarrow> 'a list" where
  "objValues obj = map snd (ownEntries obj)"

text \<open>\<open>xs.indexOf(x)\<close>: the first position of \<open>x\<close>, or \<open>-1\<close>.\<close>

fun indexOf :: "'a list \<Rightarrow> 'a \<Rightarrow> int" where
  "indexOf [] x = - 1"
| "indexOf (y # ys) x = (if y = x then 0 else (let i = indexOf ys x in if i = - 1 then - 1 else i + 1))"

subsection \<open>The data model\<close>

datatype numstr = Num int | Str string

record WorkMeta =
  nom :: string
  city :: "string option"
  address :: "string option"
  text_catala :: "string option"
  text_angles :: "string option"
  year :: "numstr option"
  month :: "numstr option"

record WorkItem =
  slug :: string
  folderPath :: string
  meta :: WorkMeta
  mainImageUrl :: "string option"
  main2ImageUrl :: "string option"
  albumImageUrls :: "string list"

subsection \<open>buildWorks\<close>

text \<open>The match of \<open>/^\/pages\/([^\/]+)\//\<close>: the folder is the longest run without a
  slash after \<open>/pages/\<close>, and a slash follows it.\<close>

definition matchFolder :: "string \<Rightarrow> string option" where
  "matchFolder path =
     (if startsWith ''/pages/'' path then
        (let rest = drop 7 path;
             folder = takeWhile (\<lambda>c. c \<noteq> CHR ''/'') rest;
             after = dropWhile (\<lambda>c. c \<noteq> CHR ''/'') rest
         in if folder \<noteq> [] \<and> after \<noteq> [] then Some folder else None)
      else None)"

text \<open>The match of \<open>/^\/pages\/([^\/]+)\/([^\/]+)$/\<close>: folder and file name, the file name
  running to the end of the path without a slash.\<close>

definition matchFolderFile :: "string \<Rightarrow> (string \<times> string) option" where
  "matchFolderFile path =
     (if startsWith ''/pages/'' path then
        (let rest = drop 7 path;
             folder = takeWhile (\<lambda>c. c \<noteq> CHR ''/'') rest;
             fileName = drop 1 (dropWhile (\<lambda>c. c \<noteq> CHR ''/'') rest)
         in if folder \<noteq> [] \<and> fileName \<noteq> [] \<and> CHR ''/'' \<notin> set fileName
            then Some (folder, fileName) else None)
      else None)"

text \<open>The placeholder of a folder without JSON: \<open>meta: { nom: folder }\<close>.\<close>

definition placeholderMeta :: "string \<Rightarrow> WorkMeta" where
  "placeholderMeta folder =
     \<lparr>nom = folder, city = None, address = None, text_catala = None, text_angles = None,
      year = None, month = None\<rparr>"

definition newItem :: "string \<Rightarrow> WorkMeta \<Rightarrow> string option \<Rightarrow> string option \<Rightarrow> string list \<Rightarrow> WorkItem" where
  "newItem folder m main main2 album =
     \<lparr>slug = folder, folderPath = ''/pages/'' @ folder, meta = m, mainImageUrl = main,
      main2ImageUrl = main2, albumImageUrls = album\<rparr>"

text \<open>The body of the loop over the JSON modules.\<close>

definition addJson :: "(string \<times> WorkItem) list \<Rightarrow> string \<times> WorkMeta \<Rightarrow> (string \<times> WorkItem) list" where
  "addJson worksByFolder e =
     (case matchFolder (fst e) of
        None \<Rightarrow> worksByFolder
      | Some folder \<Rightarrow> objSet folder (newItem folder (snd e) None None []) worksByFolder)"

text \<open>The body of the loop over the main images.\<close>

definition addMain :: "(string \<times> WorkItem) list \<Rightarrow> string \<times> string \<Rightarrow> (string \<times> WorkItem) list" where
  "addMain worksByFolder e =
     (case matchFolder (fst e) of
        None \<Rightarrow> worksByFolder
      | Some folder \<Rightarrow>
          (case map_of worksByFolder folder of
             None \<Rightarrow>
               objSet folder (newItem folder (placeholderMeta folder) (Some (snd e)) None [])
                 worksByFolder
           | Some w \<Rightarrow> objSet folder (w\<lparr>mainImageUrl := Some (snd e)\<rparr>) worksByFolder))"

text \<open>The body of the loop over the secondary main images.\<close>

definition addMain2 :: "(string \<times> WorkItem) list \<Rightarrow> string \<times> string \<Rightarrow> (string \<times> WorkItem) list" where
  "addMain2 worksByFolder e =
     (case matchFolder (fst e) of
        None \<Rightarrow> worksByFolder
      | Some folder \<Rightarrow>
          (case map_of worksByFolder folder of
             None \<Rightarrow>
               objSet folder (newItem folder (placeholderMeta folder) None (Some (snd e)) [])
                 worksByFolder
           | Some w \<Rightarrow> objSet folder (w\<lparr>main2ImageUrl := Some (snd e)\<rparr>) worksByFolder))"

text \<open>The body of the loop that collects the album: the URL is pushed with the lower-case
  file name behind a \<open>#\<close>.\<close>

definition addAlbum :: "(string \<times> string list) list \<Rightarrow> string \<times> string \<Rightarrow> (string \<times> string list) list" where
  "addAlbum albumByFolder e =
     (case matchFolderFile (fst e) of
        None \<Rightarrow> albumByFolder
      | Some (folder, file) \<Rightarrow>
          objSet folder
            ((case map_of albumByFolder folder of None \<Rightarrow> [] | Some urls \<Rightarrow> urls)
               @ [snd e @ ''#'' @ toLowerCase file])
            albumByFolder)"

text \<open>\<open>a.split('#')[1] ?? ''\<close> and \<open>u.split('#')[0]\<close>.\<close>

definition tagOf :: "string \<Rightarrow> string" where
  "tagOf a = (case jsSplit (CHR ''#'') a of _ # t # _ \<Rightarrow> t | _ \<Rightarrow> [])"

definition stripTag :: "string \<Rightarrow> string" where
  "stripTag u = (case jsSplit (CHR ''#'') u of p # _ \<Rightarrow> p | [] \<Rightarrow> [])"

text \<open>The comparator of the album sort.\<close>

definition albumCompare :: "(string \<Rightarrow> string \<Rightarrow> int) \<Rightarrow> string \<Rightarrow> string \<Rightarrow> int" where
  "albumCompare lc a b =
     (let an = tagOf a; bn = tagOf b;
          aIsMain = startsWith ''main.'' an;
          bIsMain = startsWith ''main.'' bn
      in if aIsMain \<and> \<not> bIsMain then - 1
         else if \<not> aIsMain \<and> bIsMain then 1
         else lc an bn)"

definition sortAlbum :: "(string \<Rightarrow> string \<Rightarrow> int) \<Rightarrow> string list \<Rightarrow> string list" where
  "sortAlbum lc urlsWithTags = map stripTag (sortBy (albumCompare lc) urlsWithTags)"

text \<open>The body of the loop that attaches the sorted albums. The branch that creates the
  item sets no main image; the other branch takes the first album image when the item has
  none.\<close>

definition attachAlbum ::
  "(string \<Rightarrow> string \<Rightarrow> int) \<Rightarrow> (string \<times> WorkItem) list \<Rightarrow> string \<times> string list \<Rightarrow> (string \<times> WorkItem) list" where
  "attachAlbum lc worksByFolder e =
     (let folder = fst e; sorted = sortAlbum lc (snd e)
      in case map_of worksByFolder folder of
           None \<Rightarrow>
             objSet folder (newItem folder (placeholderMeta folder) None None sorted) worksByFolder
         | Some w \<Rightarrow>
             objSet folder
               (case sorted of
                  [] \<Rightarrow> w\<lparr>albumImageUrls := sorted\<rparr>
                | first # _ \<Rightarrow>
                    if \<not> truthy (mainImageUrl w)
                    then w\<lparr>albumImageUrls := sorted, mainImageUrl := Some first\<rparr>
                    else w\<lparr>albumImageUrls := sorted\<rparr>)
               worksByFolder)"

text \<open>The dictionary after the four loops. The arguments are the entries of the four
  glob records, in enumeration order.\<close>

definition collectWorks ::
  "(string \<Rightarrow> string \<Rightarrow> int) \<Rightarrow> (string \<times> WorkMeta) list \<Rightarrow> (string \<times> string) list \<Rightarrow>
   (string \<times> string) list \<Rightarrow> (string \<times> string) list \<Rightarrow> (string \<times> WorkItem) list" where
  "collectWorks lc jsonModules mainImageModules main2ImageModules albumImageModules =
     (let w1 = foldl addJson [] jsonModules;
          w2 = foldl addMain w1 mainImageModules;
          w3 = foldl addMain2 w2 main2ImageModules;
          albumByFolder = foldl addAlbum [] albumImageModules
      in foldl (attachAlbum lc) w3 (ownEntries albumByFolder))"

text \<open>The filter: \<open>w.meta?.nom || w.mainImageUrl || w.albumImageUrls.length > 0\<close>.\<close>

definition keepItem :: "WorkItem \<Rightarrow> bool" where
  "keepItem w = (nom (meta w) \<noteq> [] \<or> truthy (mainImageUrl w) \<or> albumImageUrls w \<noteq> [])"

definition priorityOrder :: "string list" where
  "priorityOrder = [''lleo'', ''oliba'', ''ovella'', ''asparrac'', ''somera'', ''oliva'']"

text \<open>The year as the comparator reads it: \<open>parseInt\<close> of a string (NaN when it has no
  digits), the number itself, \<open>-Infinity\<close> when there is none.\<close>

datatype yearval = Finite int | NaN | NegInfinity

definition sortYear :: "numstr option \<Rightarrow> yearval" where
  "sortYear y =
     (case y of
        None \<Rightarrow> NegInfinity
      | Some (Num n) \<Rightarrow> Finite n
      | Some (Str s) \<Rightarrow> (case parseInt s of None \<Rightarrow> NaN | Some n \<Rightarrow> Finite n))"

text \<open>\<open>a.meta.nom || a.slug\<close>.\<close>

definition sortName :: "WorkItem \<Rightarrow> string" where
  "sortName w = (if nom (meta w) \<noteq> [] then nom (meta w) else slug w)"

text \<open>The comparator of the final sort.\<close>

definition workCompare :: "(string \<Rightarrow> string \<Rightarrow> int) \<Rightarrow> WorkItem \<Rightarrow> WorkItem \<Rightarrow> int" where
  "workCompare lc a b =
     (let ai = indexOf priorityOrder (slug a);
          bi = indexOf priorityOrder (slug b)
      in if ai \<noteq> - 1 \<and> bi \<noteq> - 1 then ai - bi
         else if ai \<noteq> - 1 then - 1
         else if bi \<noteq> - 1 then 1
         else (case (sortYear (year (meta a)), sortYear (year (meta b))) of
                 (Finite ay, Finite by) \<Rightarrow>
                   if ay \<noteq> by then by - ay else lc (sortName a) (sortName b)
               | _ \<Rightarrow> lc (sortName a) (sortName b)))"

definition buildWorks ::
  "(string \<Rightarrow> string \<Rightarrow> int) \<Rightarrow> (string \<times> WorkMeta) list \<Rightarrow> (string \<times> string) list \<Rightarrow>
   (string \<times> string) list \<Rightarrow> (string \<times> string) list \<Rightarrow> WorkItem list" where
  "buildWorks lc jsonModules mainImageModules main2ImageModules albumImageModules =
     sortBy (workCompare lc)
       (filter keepItem
          (objValues (collectWorks lc jsonModules mainImageModules main2ImageModules albumImageModules)))"

subsection \<open>LObra: the selection and the carousel index\<close>

text \<open>The remainder \<open>a % b\<close> of JavaScript has the sign of \<open>a\<close>.\<close>

definition jsRem :: "int \<Rightarrow> int \<Rightarrow> int" where
  "jsRem a b = sgn a * (\<bar>a\<bar> mod \<bar>b\<bar>)"

record LObraState =
  selectedSlug :: "string option"
  currentImageIndex :: int

definition initialState :: LObraState where
  "initialState = \<lparr>selectedSlug = None, currentImageIndex = 0\<rparr>"

text \<open>\<open>works.find((w) => w.slug === selectedSlug) || null\<close>.\<close>

definition selected :: "WorkItem list \<Rightarrow> LObraState \<Rightarrow> WorkItem option" where
  "selected works st =
     (case selectedSlug st of None \<Rightarrow> None | Some s \<Rightarrow> find (\<lambda>w. slug w = s) works)"

text \<open>What the user can do: \<open>SetSelectedSlug\<close> is a click on a card, a marker or a
  timeline item (\<open>Some slug\<close>) and the close button, the backdrop or Escape (\<open>None\<close>);
  the arrow keys and the two carousel buttons move the index.\<close>

datatype event = SetSelectedSlug "string option" | ArrowRight | ArrowLeft | ClickNext | ClickPrev

definition nextIndex :: "WorkItem \<Rightarrow> int \<Rightarrow> int" where
  "nextIndex sel i = jsRem (i + 1) (int (length (albumImageUrls sel)))"

definition prevIndex :: "WorkItem \<Rightarrow> int \<Rightarrow> int" where
  "prevIndex sel i =
     jsRem (i - 1 + int (length (albumImageUrls sel))) (int (length (albumImageUrls sel)))"

text \<open>One event. A new value of \<open>selectedSlug\<close> runs the effect that sets the index to 0
  (the effect is taken together with the state change); the same value changes nothing.
  The key handler is installed when something is selected and returns at once on an empty
  album; the buttons are rendered when the album has more than one image.\<close>

fun step :: "WorkItem list \<Rightarrow> LObraState \<Rightarrow> event \<Rightarrow> LObraState" where
  "step works st (SetSelectedSlug s) =
     (if s = selectedSlug st then st else \<lparr>selectedSlug = s, currentImageIndex = 0\<rparr>)"
| "step works st ArrowRight =
     (case selected works st of
        None \<Rightarrow> st
      | Some sel \<Rightarrow>
          if albumImageUrls sel = [] then st
          else st\<lparr>currentImageIndex := nextIndex sel (currentImageIndex st)\<rparr>)"
| "step works st ArrowLeft =
     (case selected works st of
        None \<Rightarrow> st
      | Some sel \<Rightarrow>
          if albumImageUrls sel = [] then st
          else st\<lparr>currentImageIndex := prevIndex sel (currentImageIndex st)\<rparr>)"
| "step works st ClickNext =
     (case selected works st of
        None \<Rightarrow> st
      | Some sel \<Rightarrow>
          if length (albumImageUrls sel) > 1
          then st\<lparr>currentImageIndex := nextIndex sel (currentImageIndex st)\<rparr> else st)"
| "step works st ClickPrev =
     (case selected works st of
        None \<Rightarrow> st
      | Some sel \<Rightarrow>
          if length (albumImageUrls sel) > 1
          then st\<lparr>currentImageIndex := prevIndex sel (currentImageIndex st)\<rparr> else st)"

definition runEvents :: "WorkItem list \<Rightarrow> event list \<Rightarrow> LObraState" where
  "runEvents works evs = foldl (step works) initialState evs"

text \<open>The cards of the grid and the rows of the list: one per work, in the order of
  \<open>works\<close>, whatever the map does.\<close>

definition gridView :: "WorkItem list \<Rightarrow> (string \<times> string option \<times> string) list" where
  "gridView works = map (\<lambda>w. (slug w, mainImageUrl w, nom (meta w))) works"

definition listView :: "WorkItem list \<Rightarrow> (string \<times> string option \<times> string) list" where
  "listView works =
     map (\<lambda>w. (slug w, orElse (main2ImageUrl w) (mainImageUrl w), nom (meta w))) works"

subsection \<open>MapView: the geocoder and its cache\<close>

text \<open>A position holds what \<open>parseFloat\<close> makes of the two strings of the service;
  \<open>parseFloat\<close> is a parameter and \<open>'n\<close> the type of its results.\<close>

record 'n LatLng =
  lat :: 'n
  lng :: 'n

text \<open>What one \<open>fetch\<close> gives: a network error (the promise rejects), a response that is
  not OK, a body that is not JSON (\<open>res.json()\<close> rejects), or the array of results, each
  with its \<open>lat\<close> and \<open>lon\<close> strings.\<close>

datatype response = NetworkError | NotOk | BadBody | Data "(string \<times> string) list"

text \<open>The state of one run of the effect: the \<open>cache\<close> object, the copy of it in
  \<open>localStorage\<close>, and the number of requests sent so far.\<close>

record 'n GeoState =
  cache :: "(string \<times> 'n LatLng) list"
  storage :: "(string \<times> 'n LatLng) list"
  requests :: nat

text \<open>\<open>geocode\<close>. The service is \<open>fetch\<close>: the answer to the request with a given number
  and query.\<close>

definition geocode ::
  "(string \<Rightarrow> 'n) \<Rightarrow> (nat \<Rightarrow> string \<Rightarrow> response) \<Rightarrow> string \<Rightarrow> 'n GeoState \<Rightarrow>
   'n LatLng option \<times> 'n GeoState" where
  "geocode parseFloat fetch query st =
     (case map_of (cache st) query of
        Some pos \<Rightarrow> (Some pos, st)
      | None \<Rightarrow>
          (let st1 = st\<lparr>requests := requests st + 1\<rparr>
           in case fetch (requests st) query of
                Data (d # _) \<Rightarrow>
                  (let pos = \<lparr>lat = parseFloat (fst d), lng = parseFloat (snd d)\<rparr>;
                       c = objSet query pos (cache st1)
                   in (Some pos, st1\<lparr>cache := c, storage := c\<rparr>))
              | _ \<Rightarrow> (None, st1)))"

text \<open>\<open>w.meta.address || w.meta.city || ''\<close>.\<close>

definition queryOf :: "WorkItem \<Rightarrow> string" where
  "queryOf w = (case orElse (address (meta w)) (city (meta w)) of None \<Rightarrow> [] | Some q \<Rightarrow> q)"

definition addresses :: "WorkItem list \<Rightarrow> (WorkItem \<times> string) list" where
  "addresses works = filter (\<lambda>x. snd x \<noteq> []) (map (\<lambda>w. (w, queryOf w)) works)"

text \<open>The loop of \<open>run\<close>: one \<open>geocode\<close> per address, in order; a position is pushed to
  \<open>results\<close>, a failure is passed over.\<close>

fun run ::
  "(string \<Rightarrow> 'n) \<Rightarrow> (nat \<Rightarrow> string \<Rightarrow> response) \<Rightarrow> (WorkItem \<times> string) list \<Rightarrow>
   (WorkItem \<times> 'n LatLng) list \<Rightarrow> 'n GeoState \<Rightarrow> (WorkItem \<times> 'n LatLng) list \<times> 'n GeoState" where
  "run parseFloat fetch [] results st = (results, st)"
| "run parseFloat fetch (a # as) results st =
     (case geocode parseFloat fetch (snd a) st of
        (None, st1) \<Rightarrow> run parseFloat fetch as results st1
      | (Some pos, st1) \<Rightarrow> run parseFloat fetch as (results @ [(fst a, pos)]) st1)"

text \<open>The works of \<open>results\<close>: those the markers are drawn from.\<close>

definition mapView ::
  "(string \<Rightarrow> 'n) \<Rightarrow> (nat \<Rightarrow> string \<Rightarrow> response) \<Rightarrow> WorkItem list \<Rightarrow> 'n GeoState \<Rightarrow> WorkItem list" where
  "mapView parseFloat fetch works st = map fst (fst (run parseFloat fetch (addresses works) [] st))"

subsection \<open>monthToIndex and the timeline\<close>

text \<open>The result of \<open>monthToIndex\<close>: \<open>null\<close>, a number, or (for a string that names a
  member of \<open>Object.prototype\<close>, which \<open>map[s]\<close> finds through the prototype of the table)
  that member, which is neither.\<close>

datatype monthIndex = Null | Index int | Inherited string

definition monthTable :: "(string \<times> int) list" where
  "monthTable =
     [(''january'', 0), (''jan'', 0), (''gener'', 0), (''ene'', 0),
      (''february'', 1), (''feb'', 1), (''febrer'', 1),
      (''march'', 2), (''mar'', 2), (''mar'' @ [CHR 0xE7], 2), (''marzo'', 2),
      (''april'', 3), (''apr'', 3), (''abril'', 3),
      (''may'', 4), (''mai'', 4), (''mayo'', 4), (''maig'', 4),
      (''june'', 5), (''jun'', 5), (''juny'', 5), (''junio'', 5),
      (''july'', 6), (''jul'', 6), (''juliol'', 6), (''julio'', 6),
      (''august'', 7), (''aug'', 7), (''agost'', 7),
      (''september'', 8), (''sep'', 8), (''setembre'', 8),
      (''october'', 9), (''oct'', 9), (''octubre'', 9),
      (''november'', 10), (''nov'', 10), (''novembre'', 10),
      (''december'', 11), (''dec'', 11), (''desembre'', 11), (''diciembre'', 11)]"

text \<open>The members of \<open>Object.prototype\<close>.\<close>

definition prototypeKeys :: "string list" where
  "prototypeKeys =
     [''constructor'', ''__defineGetter__'', ''__defineSetter__'', ''hasOwnProperty'',
      ''__lookupGetter__'', ''__lookupSetter__'', ''isPrototypeOf'', ''propertyIsEnumerable'',
      ''toString'', ''valueOf'', ''__proto__'', ''toLocaleString'']"

definition monthToIndex :: "numstr option \<Rightarrow> monthIndex" where
  "monthToIndex m =
     (case m of
        None \<Rightarrow> Null
      | Some (Num n) \<Rightarrow> Index (min 11 (max 0 (n - 1)))
      | Some (Str t) \<Rightarrow>
          (let s = toLowerCase (trim t)
           in case map_of monthTable s of
                Some i \<Rightarrow> Index i
              | None \<Rightarrow> if s \<in> set prototypeKeys then Inherited s else Null))"

text \<open>The year of a work in the timeline; \<open>None\<close> when the loop returns early:
  \<open>!year || isNaN(year)\<close> (no year, the year 0, a string without digits).\<close>

definition timelineYear :: "WorkItem \<Rightarrow> int option" where
  "timelineYear work =
     (case year (meta work) of
        None \<Rightarrow> None
      | Some (Num n) \<Rightarrow> if n = 0 then None else Some n
      | Some (Str s) \<Rightarrow>
          (case parseInt s of None \<Rightarrow> None | Some n \<Rightarrow> if n = 0 then None else Some n))"

text \<open>\<open>monthToIndex(work.meta.month) ?? 0\<close>.\<close>

definition monthKey :: "WorkItem \<Rightarrow> monthIndex" where
  "monthKey work = (case monthToIndex (month (meta work)) of Null \<Rightarrow> Index 0 | k \<Rightarrow> k)"

text \<open>The body of \<open>works.forEach\<close>: the work is pushed to the list of its year and
  month key, both created on first use.\<close>

definition addWork ::
  "(int \<times> (monthIndex \<times> WorkItem list) list) list \<Rightarrow> WorkItem \<Rightarrow>
   (int \<times> (monthIndex \<times> WorkItem list) list) list" where
  "addWork yearMap work =
     (case timelineYear work of
        None \<Rightarrow> yearMap
      | Some y \<Rightarrow>
          (let monthIdx = monthKey work;
               monthMap = (case map_of yearMap y of None \<Rightarrow> [] | Some mm \<Rightarrow> mm);
               ws = (case map_of monthMap monthIdx of None \<Rightarrow> [] | Some l \<Rightarrow> l)
           in objSet y (objSet monthIdx (ws @ [work]) monthMap) yearMap))"

text \<open>\<open>monthMap.get(month) || []\<close> for the month map of a year.\<close>

definition monthWorks ::
  "(int \<times> (monthIndex \<times> WorkItem list) list) list \<Rightarrow> int \<Rightarrow> monthIndex \<Rightarrow> WorkItem list" where
  "monthWorks yearMap y k =
     (case map_of yearMap y of
        None \<Rightarrow> []
      | Some monthMap \<Rightarrow> (case map_of monthMap k of None \<Rightarrow> [] | Some l \<Rightarrow> l))"

text \<open>A point of the timeline. Its fields \<open>year\<close>, \<open>month\<close> and \<open>works\<close> are \<open>tp_year\<close>,
  \<open>tp_month\<close> and \<open>tp_works\<close> here: \<open>year\<close> and \<open>month\<close> are fields of \<open>WorkMeta\<close>.\<close>

record TimePoint =
  tp_year :: int
  tp_month :: int
  tp_works :: "WorkItem list"
  timestamp :: int

text \<open>The values of the loop \<open>for (let month = 0; month < 12; month++)\<close>.\<close>

definition monthSlots :: "int list" where
  "monthSlots = [0, 1, 2, 3, 4, 5, 6, 7, 8, 9, 10, 11]"

definition yearPoints ::
  "(int \<times> (monthIndex \<times> WorkItem list) list) list \<Rightarrow> int \<Rightarrow> TimePoint list" where
  "yearPoints yearMap y =
     map (\<lambda>m. \<lparr>tp_year = y, tp_month = m, tp_works = monthWorks yearMap y (Index m),
               timestamp = y * 12 + m\<rparr>) monthSlots"

text \<open>\<open>timelineData\<close>: the years that have works, latest first, twelve points each,
  sorted by time stamp, latest first.\<close>

definition timelineData :: "WorkItem list \<Rightarrow> TimePoint list" where
  "timelineData works =
     (let yearMap = foldl addWork [] works;
          yearsWithWorks = sortBy (\<lambda>a b. b - a) (map fst yearMap);
          timePoints = concat (map (yearPoints yearMap) yearsWithWorks)
      in sortBy (\<lambda>a b. timestamp b - timestamp a) timePoints)"

subsection \<open>Auxiliary definitions for the proofs\<close>

text \<open>A comparator of strings that is a total preorder, as \<open>localeCompare\<close> is.\<close>

definition consistent :: "(string \<Rightarrow> string \<Rightarrow> int) \<Rightarrow> bool" where
  "consistent lc =
     ((\<forall>a b. lc a b \<le> 0 \<or> lc b a \<le> 0) \<and>
      (\<forall>a b c. lc a b \<le> 0 \<and> lc b c \<le> 0 \<longrightarrow> lc a c \<le> 0))"

text \<open>The order of an album: the tags that start with \<open>main.\<close> first, and \<open>lc\<close> on the tags
  among the others and among themselves.\<close>

definition albumBefore :: "(string \<Rightarrow> string \<Rightarrow> int) \<Rightarrow> string \<Rightarrow> string \<Rightarrow> bool" where
  "albumBefore lc a b =
     (if startsWith ''main.'' (tagOf a) = startsWith ''main.'' (tagOf b)
      then lc (tagOf a) (tagOf b) \<le> 0
      else startsWith ''main.'' (tagOf a))"

text \<open>A slug of the priority list; a work whose year the comparator can use.\<close>

definition listed :: "WorkItem \<Rightarrow> bool" where
  "listed w = (indexOf priorityOrder (slug w) \<noteq> - 1)"

definition yearKnown :: "WorkItem \<Rightarrow> bool" where
  "yearKnown w = (case sortYear (year (meta w)) of Finite n \<Rightarrow> True | _ \<Rightarrow> False)"

text \<open>The listed slugs first, in the order of the list.\<close>

definition priorityFirst :: "WorkItem \<Rightarrow> WorkItem \<Rightarrow> bool" where
  "priorityFirst a b =
     (indexOf priorityOrder (slug b) = - 1 \<or>
      (indexOf priorityOrder (slug a) \<noteq> - 1 \<and>
       indexOf priorityOrder (slug a) \<le> indexOf priorityOrder (slug b)))"

text \<open>The order of the catalogue where the years are known: the listed slugs in the order
  of the list, then the later year first, then \<open>lc\<close> on the names.\<close>

definition workBefore :: "(string \<Rightarrow> string \<Rightarrow> int) \<Rightarrow> WorkItem \<Rightarrow> WorkItem \<Rightarrow> bool" where
  "workBefore lc a b =
     (if listed b then listed a \<and> indexOf priorityOrder (slug a) \<le> indexOf priorityOrder (slug b)
      else if listed a then True
      else (case (sortYear (year (meta a)), sortYear (year (meta b))) of
              (Finite ay, Finite by) \<Rightarrow>
                 by < ay \<or> (by = ay \<and> lc (sortName a) (sortName b) \<le> 0)
            | _ \<Rightarrow> False))"

text \<open>Every entry of the dictionary is filed under its own slug, and no key occurs twice.\<close>

definition keyed :: "(string \<times> WorkItem) list \<Rightarrow> bool" where
  "keyed wbf = (distinct (map fst wbf) \<and> list_all (\<lambda>e. slug (snd e) = fst e) wbf)"

text \<open>The invariant of the carousel: the index is not negative, and it is below the
  length of the album of the selected work when that album is not empty.\<close>

definition indexOk :: "WorkItem list \<Rightarrow> LObraState \<Rightarrow> bool" where
  "indexOk works st =
     (0 \<le> currentImageIndex st \<and>
      (case selected works st of
         None \<Rightarrow> True
       | Some sel \<Rightarrow> albumImageUrls sel = [] \<or> currentImageIndex st < int (length (albumImageUrls sel))))"

text \<open>The year that the metadata of a work give, as a number: the number itself, or what
  \<open>parseInt\<close> reads from the string.\<close>

definition metaYear :: "WorkItem \<Rightarrow> int option" where
  "metaYear w =
     (case year (meta w) of
        None \<Rightarrow> None
      | Some (Num n) \<Rightarrow> Some n
      | Some (Str s) \<Rightarrow> parseInt s)"

text \<open>The works of a year and month key, and the year and month of a point.\<close>

definition inBucket :: "int \<Rightarrow> monthIndex \<Rightarrow> WorkItem \<Rightarrow> bool" where
  "inBucket y k w = (timelineYear w = Some y \<and> monthKey w = k)"

definition pointKey :: "TimePoint \<Rightarrow> int \<times> int" where
  "pointKey p = (tp_year p, tp_month p)"

text \<open>Concrete inputs: metadata, works, a carousel session, and two geocoding services
  (one that is offline, one that knows Vic only).\<close>

definition emptyMeta :: WorkMeta where
  "emptyMeta = \<lparr>nom = [], city = None, address = None, text_catala = None, text_angles = None,
      year = None, month = None\<rparr>"

definition demoMeta :: "string \<Rightarrow> numstr option \<Rightarrow> numstr option \<Rightarrow> string option \<Rightarrow> WorkMeta" where
  "demoMeta n y m c =
     \<lparr>nom = n, city = c, address = None, text_catala = None, text_angles = None,
      year = y, month = m\<rparr>"

definition demoWork :: WorkItem where
  "demoWork = newItem ''a'' (placeholderMeta ''a'') None None [''u1'', ''u2'', ''u3'']"

definition demoEvents :: "event list" where
  "demoEvents = [SetSelectedSlug (Some ''a''), ArrowLeft]"

definition workA :: WorkItem where
  "workA = newItem ''a'' (demoMeta ''Zebra'' (Some (Num 2020)) None (Some ''Vic'')) None None []"

definition workB :: WorkItem where
  "workB = newItem ''b'' (demoMeta ''Alpha'' (Some (Str ''2020'')) None (Some ''Nowhere'')) None None []"

definition workUndated :: WorkItem where
  "workUndated = newItem ''u'' (demoMeta ''Undated'' None None (Some ''Nowhere'')) None None []"

definition workZero :: WorkItem where
  "workZero = newItem ''z'' (demoMeta ''Zero'' (Some (Num 0)) None None) None None []"

definition workMaig :: WorkItem where
  "workMaig = newItem ''m'' (demoMeta ''Maig'' (Some (Num 2023)) (Some (Str ''maig'')) None) None None []"

definition emptyGeo :: "string GeoState" where
  "emptyGeo = \<lparr>cache = [], storage = [], requests = 0\<rparr>"

definition offline :: "nat \<Rightarrow> string \<Rightarrow> response" where
  "offline n q = NetworkError"

definition vicService :: "nat \<Rightarrow> string \<Rightarrow> response" where
  "vicService n q = (if q = ''Vic'' then Data [(''41.93'', ''2.25'')] else Data [])"

section \<open>Properties\<close>

subsection \<open>Sorting and dictionaries\<close>

lemma set_insertBy: "set (insertBy cmp x xs) = insert x (set xs)"
  by (induction xs) auto

lemma set_sortBy: "set (sortBy cmp xs) = set xs"
  by (induction xs) (simp_all add: sortBy_def set_insertBy)

lemma length_insertBy: "length (insertBy cmp x xs) = Suc (length xs)"
  by (induction xs) auto

lemma length_sortBy: "length (sortBy cmp xs) = length xs"
  by (induction xs) (simp_all add: sortBy_def length_insertBy)

lemma set_ownEntries: "set (ownEntries obj) = set obj"
  by (auto simp: ownEntries_def set_sortBy)

lemma set_objValues: "set (objValues obj) = snd ` set obj"
  by (simp add: objValues_def set_ownEntries)

lemma distinct_insertBy: "distinct (insertBy cmp x xs) = (x \<notin> set xs \<and> distinct xs)"
  by (induction xs) (auto simp: set_insertBy)

lemma distinct_sortBy: "distinct (sortBy cmp xs) = distinct xs"
  by (induction xs) (simp_all add: sortBy_def distinct_insertBy set_sortBy [unfolded sortBy_def])

lemma distinct_map_insertBy:
  "distinct (map f (insertBy cmp x xs)) = (f x \<notin> f ` set xs \<and> distinct (map f xs))"
  by (induction xs) (auto simp: set_insertBy)

lemma distinct_map_sortBy: "distinct (map f (sortBy cmp xs)) = distinct (map f xs)"
  by (induction xs)
    (simp_all add: sortBy_def distinct_map_insertBy set_sortBy [unfolded sortBy_def])

text \<open>\<open>sortBy\<close> sorts with respect to every transitive relation that the comparator
  respects on the elements of the list.\<close>

lemma sorted_wrt_insertBy:
  assumes tr: "\<And>a b c. P a b \<Longrightarrow> P b c \<Longrightarrow> P a c"
    and le: "\<And>y. y \<in> set ys \<Longrightarrow> cmp x y \<le> 0 \<Longrightarrow> P x y"
    and gt: "\<And>y. y \<in> set ys \<Longrightarrow> \<not> cmp x y \<le> 0 \<Longrightarrow> P y x"
    and srt: "sorted_wrt P ys"
  shows "sorted_wrt P (insertBy cmp x ys)"
  using le gt srt
proof (induction ys)
  case Nil
  then show ?case by simp
next
  case (Cons y ys)
  show ?case
  proof (cases "cmp x y \<le> 0")
    case True
    have xy: "P x y" using Cons.prems(1) True by simp
    have "\<forall>z\<in>set ys. P y z" using Cons.prems(3) by simp
    then have "\<forall>z\<in>set ys. P x z" using xy tr by blast
    then show ?thesis using True xy Cons.prems(3) by simp
  next
    case False
    have yx: "P y x" using Cons.prems(2) False by simp
    have ih: "sorted_wrt P (insertBy cmp x ys)"
      using Cons.IH Cons.prems by simp
    show ?thesis using False yx ih Cons.prems(3) by (simp add: set_insertBy)
  qed
qed

lemma sorted_wrt_sortBy:
  assumes tr: "\<And>a b c. P a b \<Longrightarrow> P b c \<Longrightarrow> P a c"
    and le: "\<And>x y. x \<in> set xs \<Longrightarrow> y \<in> set xs \<Longrightarrow> cmp x y \<le> 0 \<Longrightarrow> P x y"
    and gt: "\<And>x y. x \<in> set xs \<Longrightarrow> y \<in> set xs \<Longrightarrow> \<not> cmp x y \<le> 0 \<Longrightarrow> P y x"
  shows "sorted_wrt P (sortBy cmp xs)"
  using le gt
proof (induction xs)
  case Nil
  then show ?case by (simp add: sortBy_def)
next
  case (Cons x xs)
  have ih: "sorted_wrt P (sortBy cmp xs)" using Cons.IH Cons.prems by simp
  have "sorted_wrt P (insertBy cmp x (sortBy cmp xs))"
  proof (rule sorted_wrt_insertBy [OF tr _ _ ih])
    fix y assume "y \<in> set (sortBy cmp xs)" "cmp x y \<le> 0"
    then show "P x y" using Cons.prems(1) [of x y] by (simp add: set_sortBy)
  next
    fix y assume "y \<in> set (sortBy cmp xs)" "\<not> cmp x y \<le> 0"
    then show "P y x" using Cons.prems(2) [of x y] by (simp add: set_sortBy)
  qed
  then show ?case by (simp add: sortBy_def)
qed

lemma map_of_objSet: "map_of (objSet k v al) = (map_of al)(k \<mapsto> v)"
  by (induction al) (auto simp: fun_eq_iff)

lemma keys_objSet: "fst ` set (objSet k v al) = insert k (fst ` set al)"
  by (induction al) auto

lemma distinct_keys_objSet:
  "distinct (map fst al) \<Longrightarrow> distinct (map fst (objSet k v al))"
proof (induction al)
  case Nil
  then show ?case by simp
next
  case (Cons kv al)
  then show ?case
    using keys_objSet [of k v al] by (auto simp: image_iff)
qed

lemma set_objSet_subset: "set (objSet k v al) \<subseteq> insert (k, v) (set al)"
  by (induction al) auto

lemma distinct_keys_ownEntries:
  assumes "distinct (map fst obj)"
  shows "distinct (map fst (ownEntries obj))"
proof -
  have 1: "distinct (map fst (filter (\<lambda>kv. isArrayIndex (fst kv)) obj))"
    using assms by (rule distinct_map_filter)
  have 2: "distinct (map fst (filter (\<lambda>kv. \<not> isArrayIndex (fst kv)) obj))"
    using assms by (rule distinct_map_filter)
  show ?thesis
    unfolding ownEntries_def using 1 2 by (auto simp: distinct_map_sortBy set_sortBy)
qed

lemmas evaluate =
  Let_def truthy_def orElse_def lowerChar_def toLowerCase_def upperChars_def lowerChars_def
  isWhite_def trim_def isDigit_def digitVal_def digitsVal_def parseInt_def startsWith_def
  codeCompare_def sortBy_def isArrayIndex_def ownEntries_def objValues_def matchFolder_def
  matchFolderFile_def placeholderMeta_def newItem_def addJson_def addMain_def addMain2_def
  addAlbum_def tagOf_def stripTag_def albumCompare_def sortAlbum_def attachAlbum_def
  collectWorks_def keepItem_def priorityOrder_def sortYear_def sortName_def workCompare_def
  buildWorks_def demoMeta_def emptyMeta_def

subsection \<open>buildWorks: the items that are kept\<close>

text \<open>
  C2. The list returned by \<open>buildWorks\<close> holds exactly the items of the dictionary that
  have a non-empty name, a (non-empty) primary image or at least one album image: every
  retained item has one of the three, and an item with none of them is dropped.
\<close>

theorem buildWorks_retained:
  "w \<in> set (buildWorks lc jsonModules mainImageModules main2ImageModules albumImageModules)
   \<longleftrightarrow>
   w \<in> set (objValues (collectWorks lc jsonModules mainImageModules main2ImageModules albumImageModules))
   \<and> (nom (meta w) \<noteq> [] \<or> truthy (mainImageUrl w) \<or> albumImageUrls w \<noteq> [])"
  by (simp add: buildWorks_def set_sortBy keepItem_def)

lemma demo_collect:
  "collectWorks codeCompare [(''/pages/a/a.json'', emptyMeta), (''/pages/b/b.json'', emptyMeta)] []
      [(''/pages/a/main2.jpg'', ''m2'')] [(''/pages/b/x.jpg'', ''u'')]
   = [(''a'', newItem ''a'' emptyMeta None (Some ''m2'') []),
      (''b'', newItem ''b'' emptyMeta (Some ''u'') None [''u''])]"
  by (simp add: evaluate)

theorem buildWorks_retained_witness:
  "newItem ''b'' emptyMeta (Some ''u'') None [''u'']
     \<in> set (buildWorks codeCompare [(''/pages/a/a.json'', emptyMeta), (''/pages/b/b.json'', emptyMeta)] []
          [(''/pages/a/main2.jpg'', ''m2'')] [(''/pages/b/x.jpg'', ''u'')])
   \<and> newItem ''a'' emptyMeta None (Some ''m2'') []
     \<notin> set (buildWorks codeCompare [(''/pages/a/a.json'', emptyMeta), (''/pages/b/b.json'', emptyMeta)] []
          [(''/pages/a/main2.jpg'', ''m2'')] [(''/pages/b/x.jpg'', ''u'')])"
proof -
  have v: "set (objValues (collectWorks codeCompare [(''/pages/a/a.json'', emptyMeta), (''/pages/b/b.json'', emptyMeta)] []
      [(''/pages/a/main2.jpg'', ''m2'')] [(''/pages/b/x.jpg'', ''u'')]))
    = {newItem ''a'' emptyMeta None (Some ''m2'') [], newItem ''b'' emptyMeta (Some ''u'') None [''u'']}"
    by (simp only: demo_collect set_objValues) simp
  have b: "albumImageUrls (newItem ''b'' emptyMeta (Some ''u'') None [''u'']) \<noteq> []"
    by (simp add: newItem_def)
  have a: "\<not> (nom (meta (newItem ''a'' emptyMeta None (Some ''m2'') [])) \<noteq> []
      \<or> truthy (mainImageUrl (newItem ''a'' emptyMeta None (Some ''m2'') []))
      \<or> albumImageUrls (newItem ''a'' emptyMeta None (Some ''m2'') []) \<noteq> [])"
    by (simp add: newItem_def emptyMeta_def truthy_def)
  show ?thesis
    using buildWorks_retained [of "newItem ''b'' emptyMeta (Some ''u'') None [''u'']" codeCompare
        "[(''/pages/a/a.json'', emptyMeta), (''/pages/b/b.json'', emptyMeta)]" "[]"
        "[(''/pages/a/main2.jpg'', ''m2'')]" "[(''/pages/b/x.jpg'', ''u'')]"]
      buildWorks_retained [of "newItem ''a'' emptyMeta None (Some ''m2'') []" codeCompare
        "[(''/pages/a/a.json'', emptyMeta), (''/pages/b/b.json'', emptyMeta)]" "[]"
        "[(''/pages/a/main2.jpg'', ''m2'')]" "[(''/pages/b/x.jpg'', ''u'')]"]
      v a b by blast
qed

subsection \<open>buildWorks: one item per slug\<close>

lemma keyed_objSet:
  assumes "keyed wbf" and "slug w = k"
  shows "keyed (objSet k w wbf)"
proof -
  have "set (objSet k w wbf) \<subseteq> insert (k, w) (set wbf)" by (rule set_objSet_subset)
  then have "\<forall>e\<in>set (objSet k w wbf). slug (snd e) = fst e"
    using assms by (auto simp: keyed_def list_all_iff)
  then show ?thesis using assms(1) by (simp add: keyed_def list_all_iff distinct_keys_objSet)
qed

lemma keyed_lookup: "keyed wbf \<Longrightarrow> map_of wbf k = Some w \<Longrightarrow> slug w = k"
  by (auto simp: keyed_def list_all_iff dest: map_of_SomeD)

lemma keyed_addJson: "keyed wbf \<Longrightarrow> keyed (addJson wbf e)"
  by (auto simp: addJson_def newItem_def intro!: keyed_objSet split: option.splits)

lemma keyed_addMain: "keyed wbf \<Longrightarrow> keyed (addMain wbf e)"
  by (auto simp: addMain_def newItem_def intro!: keyed_objSet dest: keyed_lookup
      split: option.splits)

lemma keyed_addMain2: "keyed wbf \<Longrightarrow> keyed (addMain2 wbf e)"
  by (auto simp: addMain2_def newItem_def intro!: keyed_objSet dest: keyed_lookup
      split: option.splits)

lemma keyed_attachAlbum: "keyed wbf \<Longrightarrow> keyed (attachAlbum lc wbf e)"
  by (auto simp: attachAlbum_def Let_def newItem_def intro!: keyed_objSet dest: keyed_lookup
      split: option.splits list.splits)

lemma keyed_foldl:
  assumes "\<And>wbf e. keyed wbf \<Longrightarrow> keyed (f wbf e)"
  shows "keyed wbf \<Longrightarrow> keyed (foldl f wbf es)"
  by (induction es arbitrary: wbf) (simp_all add: assms)

lemma collectWorks_unfold:
  "collectWorks lc jsonModules mainImageModules main2ImageModules albumImageModules =
     foldl (attachAlbum lc)
       (foldl addMain2 (foldl addMain (foldl addJson [] jsonModules) mainImageModules)
          main2ImageModules)
       (ownEntries (foldl addAlbum [] albumImageModules))"
  by (simp add: collectWorks_def Let_def)

lemma keyed_collectWorks:
  "keyed (collectWorks lc jsonModules mainImageModules main2ImageModules albumImageModules)"
  unfolding collectWorks_unfold
  by (intro keyed_foldl keyed_attachAlbum keyed_addMain2 keyed_addMain keyed_addJson)
    (simp_all add: keyed_def)

lemma keyed_distinct_slugs:
  assumes "keyed wbf"
  shows "distinct (map slug (objValues wbf))"
proof -
  have "\<forall>e\<in>set (ownEntries wbf). slug (snd e) = fst e"
    using assms by (simp add: keyed_def list_all_iff set_ownEntries)
  then have "map slug (objValues wbf) = map fst (ownEntries wbf)"
    by (simp add: objValues_def)
  then show ?thesis using assms by (simp add: keyed_def distinct_keys_ownEntries)
qed

lemma buildWorks_distinct_slugs:
  "distinct (map slug (buildWorks lc jsonModules mainImageModules main2ImageModules albumImageModules))"
  unfolding buildWorks_def
  by (simp add: distinct_map_sortBy distinct_map_filter keyed_distinct_slugs keyed_collectWorks)

lemma buildWorks_distinct:
  "distinct (buildWorks lc jsonModules mainImageModules main2ImageModules albumImageModules)"
  using buildWorks_distinct_slugs [of lc jsonModules mainImageModules main2ImageModules albumImageModules]
  by (simp add: distinct_map)

subsection \<open>buildWorks: the primary image of a folder without main file\<close>

text \<open>The two branches of the loop that attaches the albums: an item that exists and has
  no main image gets the first image of the sorted album; an item that the loop creates
  gets none.\<close>

lemma attachAlbum_existing:
  assumes "map_of worksByFolder folder = Some w"
    and "\<not> truthy (mainImageUrl w)"
    and "sortAlbum lc urlsWithTags = first # others"
  shows "map_of (attachAlbum lc worksByFolder (folder, urlsWithTags)) folder =
     Some (w\<lparr>albumImageUrls := first # others, mainImageUrl := Some first\<rparr>)"
  using assms by (simp add: attachAlbum_def Let_def map_of_objSet)

lemma attachAlbum_created:
  assumes "map_of worksByFolder folder = None"
  shows "map_of (attachAlbum lc worksByFolder (folder, urlsWithTags)) folder =
     Some (newItem folder (placeholderMeta folder) None None (sortAlbum lc urlsWithTags))"
  using assms by (simp add: attachAlbum_def Let_def map_of_objSet)

text \<open>The album loop, folder by folder.\<close>

lemma attachAlbum_other:
  "fst e \<noteq> folder \<Longrightarrow> map_of (attachAlbum lc wbf e) folder = map_of wbf folder"
  by (auto simp: attachAlbum_def Let_def map_of_objSet split: option.splits list.splits)

lemma foldl_attachAlbum_other:
  "folder \<notin> fst ` set es \<Longrightarrow> map_of (foldl (attachAlbum lc) wbf es) folder = map_of wbf folder"
  by (induction es arbitrary: wbf) (auto simp: attachAlbum_other)

lemma attachAlbum_same:
  "map_of wbf folder = map_of wbf' folder \<Longrightarrow>
   map_of (attachAlbum lc wbf (folder, us)) folder = map_of (attachAlbum lc wbf' (folder, us)) folder"
  by (auto simp: attachAlbum_def Let_def map_of_objSet split: option.splits list.splits)

lemma foldl_attachAlbum_at:
  assumes "distinct (map fst es)" and "(folder, us) \<in> set es"
  shows "map_of (foldl (attachAlbum lc) wbf es) folder = map_of (attachAlbum lc wbf (folder, us)) folder"
  using assms
proof (induction es arbitrary: wbf)
  case Nil
  then show ?case by simp
next
  case (Cons e es)
  show ?case
  proof (cases "e = (folder, us)")
    case True
    then have "folder \<notin> fst ` set es" using Cons.prems(1) by auto
    then show ?thesis using True by (simp add: foldl_attachAlbum_other)
  next
    case False
    then have mem: "(folder, us) \<in> set es" using Cons.prems(2) by simp
    then have ne: "fst e \<noteq> folder" using Cons.prems(1) by (auto simp: image_iff)
    have "map_of (foldl (attachAlbum lc) (attachAlbum lc wbf e) es) folder
        = map_of (attachAlbum lc (attachAlbum lc wbf e) (folder, us)) folder"
      using Cons.IH [of "attachAlbum lc wbf e"] Cons.prems(1) mem by simp
    also have "\<dots> = map_of (attachAlbum lc wbf (folder, us)) folder"
      by (rule attachAlbum_same) (simp add: attachAlbum_other ne)
    finally show ?thesis by simp
  qed
qed

lemma distinct_keys_addAlbum:
  "distinct (map fst abf) \<Longrightarrow> distinct (map fst (addAlbum abf e))"
  by (auto simp: addAlbum_def distinct_keys_objSet split: option.splits)

lemma distinct_keys_foldl_addAlbum:
  "distinct (map fst abf) \<Longrightarrow> distinct (map fst (foldl addAlbum abf es))"
  by (induction es arbitrary: abf) (simp_all add: distinct_keys_addAlbum)

lemma collectWorks_folder:
  assumes "map_of (foldl addAlbum [] albumImageModules) folder = Some us"
  shows "map_of (collectWorks lc jsonModules mainImageModules main2ImageModules albumImageModules) folder
    = map_of (attachAlbum lc
        (foldl addMain2 (foldl addMain (foldl addJson [] jsonModules) mainImageModules)
           main2ImageModules) (folder, us)) folder"
proof -
  have d: "distinct (map fst (ownEntries (foldl addAlbum [] albumImageModules)))"
    by (intro distinct_keys_ownEntries distinct_keys_foldl_addAlbum) simp
  have m: "(folder, us) \<in> set (ownEntries (foldl addAlbum [] albumImageModules))"
    using assms by (simp add: set_ownEntries map_of_SomeD)
  show ?thesis unfolding collectWorks_unfold using d m by (rule foldl_attachAlbum_at)
qed

text \<open>A folder that has album images and an item before the album loop (from a JSON file
  or a \<open>main2.*\<close> file) without main image: the first image of the sorted album becomes the
  main image. A folder that has album images and no item before the album loop: no main
  image.\<close>

lemma collectWorks_album_existing:
  assumes "map_of (foldl addAlbum [] albumImageModules) folder = Some us"
    and "map_of (foldl addMain2 (foldl addMain (foldl addJson [] jsonModules) mainImageModules)
           main2ImageModules) folder = Some w"
    and "\<not> truthy (mainImageUrl w)"
    and "sortAlbum lc us = first # others"
  shows "map_of (collectWorks lc jsonModules mainImageModules main2ImageModules albumImageModules) folder
    = Some (w\<lparr>albumImageUrls := first # others, mainImageUrl := Some first\<rparr>)"
  using assms(2,3,4) by (simp add: collectWorks_folder [OF assms(1)] attachAlbum_existing)

lemma collectWorks_album_created:
  assumes "map_of (foldl addAlbum [] albumImageModules) folder = Some us"
    and "map_of (foldl addMain2 (foldl addMain (foldl addJson [] jsonModules) mainImageModules)
           main2ImageModules) folder = None"
  shows "map_of (collectWorks lc jsonModules mainImageModules main2ImageModules albumImageModules) folder
    = Some (newItem folder (placeholderMeta folder) None None (sortAlbum lc us))"
  using assms(2) by (simp add: collectWorks_folder [OF assms(1)] attachAlbum_created)

lemma buildWorks_album_with_json:
  "map (\<lambda>w. (slug w, mainImageUrl w, albumImageUrls w))
     (buildWorks codeCompare [(''/pages/x/x.json'', demoMeta ''X'' None None None)] [] []
        [(''/pages/x/a.jpg'', ''u'')])
   = [(''x'', Some ''u'', [''u''])]"
  by (simp add: evaluate)

text \<open>
  C3. A folder with album images and no \<open>main.*\<close> file should get the first album image
  as its primary image. The folder \<open>x\<close> that holds the one file \<open>a.jpg\<close> (no JSON, no
  \<open>main.*\<close>, no \<open>main2.*\<close>) is created by the album loop, and its item has the album
  \<open>[u]\<close> and no primary image.
\<close>

theorem buildWorks_album_only_folder:
  "map (\<lambda>w. (slug w, mainImageUrl w, albumImageUrls w))
     (buildWorks codeCompare [] [] [] [(''/pages/x/a.jpg'', ''u'')])
   = [(''x'', None, [''u''])]"
  by (simp add: evaluate)

subsection \<open>buildWorks: the order of an album\<close>

lemma consistent_total: "consistent lc \<Longrightarrow> \<not> lc a b \<le> 0 \<Longrightarrow> lc b a \<le> 0"
  unfolding consistent_def by blast

lemma consistent_trans: "consistent lc \<Longrightarrow> lc a b \<le> 0 \<Longrightarrow> lc b c \<le> 0 \<Longrightarrow> lc a c \<le> 0"
  unfolding consistent_def by blast

lemma consistent_codeCompare: "consistent codeCompare"
  by (auto simp: consistent_def codeCompare_def split: if_splits)

lemma albumBefore_trans:
  assumes c: "consistent lc" and ab: "albumBefore lc a b" and bc: "albumBefore lc b c"
  shows "albumBefore lc a c"
proof (cases "startsWith ''main.'' (tagOf a) = startsWith ''main.'' (tagOf b)")
  case True
  note eq_ab = True
  then have l1: "lc (tagOf a) (tagOf b) \<le> 0" using ab by (simp add: albumBefore_def)
  show ?thesis
  proof (cases "startsWith ''main.'' (tagOf b) = startsWith ''main.'' (tagOf c)")
    case True
    then have l2: "lc (tagOf b) (tagOf c) \<le> 0" using bc by (simp add: albumBefore_def)
    have "lc (tagOf a) (tagOf c) \<le> 0" using c l1 l2 by (rule consistent_trans)
    then show ?thesis using eq_ab True by (simp add: albumBefore_def)
  next
    case False
    then have "startsWith ''main.'' (tagOf b)" using bc by (simp add: albumBefore_def)
    then show ?thesis using eq_ab False by (simp add: albumBefore_def)
  qed
next
  case False
  then have ma: "startsWith ''main.'' (tagOf a)" using ab by (simp add: albumBefore_def)
  then have mb: "\<not> startsWith ''main.'' (tagOf b)" using False by simp
  have "\<not> startsWith ''main.'' (tagOf c)"
  proof
    assume "startsWith ''main.'' (tagOf c)"
    then show False using mb bc by (simp add: albumBefore_def)
  qed
  then show ?thesis using ma by (simp add: albumBefore_def)
qed

lemma albumCompare_le: "albumCompare lc a b \<le> 0 \<Longrightarrow> albumBefore lc a b"
  by (cases "startsWith ''main.'' (tagOf a)"; cases "startsWith ''main.'' (tagOf b)")
    (simp_all add: albumCompare_def albumBefore_def Let_def)

lemma albumCompare_gt:
  assumes c: "consistent lc" and gt: "\<not> albumCompare lc a b \<le> 0"
  shows "albumBefore lc b a"
proof (cases "startsWith ''main.'' (tagOf a) = startsWith ''main.'' (tagOf b)")
  case True
  then have "\<not> lc (tagOf a) (tagOf b) \<le> 0"
    using gt by (simp add: albumCompare_def Let_def)
  then have "lc (tagOf b) (tagOf a) \<le> 0" using c consistent_total by blast
  then show ?thesis using True by (simp add: albumBefore_def)
next
  case False
  then have "startsWith ''main.'' (tagOf b)"
    using gt by (cases "startsWith ''main.'' (tagOf a)") (simp_all add: albumCompare_def Let_def)
  then show ?thesis using False by (simp add: albumBefore_def)
qed

lemma sortBy_album_sorted:
  assumes "consistent lc"
  shows "sorted_wrt (albumBefore lc) (sortBy (albumCompare lc) urlsWithTags)"
proof (rule sorted_wrt_sortBy)
  show "\<And>a b c. albumBefore lc a b \<Longrightarrow> albumBefore lc b c \<Longrightarrow> albumBefore lc a c"
    using assms by (rule albumBefore_trans)
  show "\<And>x y. x \<in> set urlsWithTags \<Longrightarrow> y \<in> set urlsWithTags \<Longrightarrow> albumCompare lc x y \<le> 0 \<Longrightarrow> albumBefore lc x y"
    by (rule albumCompare_le)
  show "\<And>x y. x \<in> set urlsWithTags \<Longrightarrow> y \<in> set urlsWithTags \<Longrightarrow> \<not> albumCompare lc x y \<le> 0 \<Longrightarrow> albumBefore lc y x"
    using assms by (rule albumCompare_gt)
qed

text \<open>Where neither the URL nor the file name holds a \<open>#\<close>, the tag is the file name and
  the stripped string is the URL, so that the album is sorted by file name, \<open>main.*\<close>
  first.\<close>

lemma jsSplit_no_sep: "c \<notin> set s \<Longrightarrow> jsSplit c s = [s]"
  by (induction s) auto

lemma jsSplit_append: "c \<notin> set s \<Longrightarrow> jsSplit c (s @ c # t) = s # jsSplit c t"
  by (induction s) auto

lemma tagOf_tagged:
  "CHR ''#'' \<notin> set url \<Longrightarrow> CHR ''#'' \<notin> set name \<Longrightarrow> tagOf (url @ ''#'' @ name) = name"
  by (simp add: tagOf_def jsSplit_append jsSplit_no_sep)

lemma stripTag_tagged:
  "CHR ''#'' \<notin> set url \<Longrightarrow> stripTag (url @ ''#'' @ name) = url"
  by (simp add: stripTag_def jsSplit_append)

lemma buildWorks_album_example:
  "map albumImageUrls
     (buildWorks codeCompare [] [] []
        [(''/pages/x/b.jpg'', ''ub''), (''/pages/x/A.jpg'', ''ua''), (''/pages/x/main.png'', ''um'')])
   = [[''um'', ''ua'', ''ub'']]"
  by (simp add: evaluate)

text \<open>
  C5. Within a folder, \<open>main.*\<close> should sort first and the other files by lower-case file
  name. The comparator reads the file name back with \<open>split('#')[1]\<close>, which stops at the
  first \<open>#\<close> of the name: the files \<open>b#B.jpg\<close> and \<open>b#a.jpg\<close> both compare as \<open>b\<close>, so
  they keep the order in which they came, \<open>b#B.jpg\<close> before \<open>b#a.jpg\<close>, although
  \<open>b#a.jpg\<close> is the smaller lower-case name.
\<close>

theorem buildWorks_album_hash_in_file_name:
  "map albumImageUrls
     (buildWorks codeCompare [] [] []
        [(''/pages/x/b#B.jpg'', ''u1''), (''/pages/x/b#a.jpg'', ''u2'')])
   = [[''u1'', ''u2'']]"
  by (simp add: evaluate)

subsection \<open>buildWorks: the order of the catalogue\<close>

text \<open>For every input the listed slugs come first, in the order of the list.\<close>

lemma priorityFirst_trans: "priorityFirst a b \<Longrightarrow> priorityFirst b c \<Longrightarrow> priorityFirst a c"
  by (auto simp: priorityFirst_def)

lemma workCompare_le_priority: "workCompare lc a b \<le> 0 \<Longrightarrow> priorityFirst a b"
  by (auto simp: workCompare_def Let_def priorityFirst_def split: if_splits)

lemma workCompare_gt_priority: "\<not> workCompare lc a b \<le> 0 \<Longrightarrow> priorityFirst b a"
  by (auto simp: workCompare_def Let_def priorityFirst_def split: if_splits)

lemma buildWorks_priority_first:
  "sorted_wrt priorityFirst (buildWorks lc jsonModules mainImageModules main2ImageModules albumImageModules)"
  unfolding buildWorks_def
  by (rule sorted_wrt_sortBy)
    (auto intro: priorityFirst_trans workCompare_le_priority workCompare_gt_priority)

text \<open>Where every work that is not listed has a usable year, the catalogue is sorted:
  listed slugs, then descending year, then \<open>lc\<close> on the names.\<close>

lemma workBefore_unlisted:
  "\<not> listed a \<Longrightarrow> \<not> listed b \<Longrightarrow>
   workBefore lc a b =
     (\<exists>ay by. sortYear (year (meta a)) = Finite ay \<and> sortYear (year (meta b)) = Finite by
        \<and> (by < ay \<or> (by = ay \<and> lc (sortName a) (sortName b) \<le> 0)))"
  by (auto simp: workBefore_def split: yearval.splits)

lemma workBefore_trans:
  assumes c: "consistent lc" and ab: "workBefore lc a b" and bc: "workBefore lc b c"
  shows "workBefore lc a c"
proof (cases "listed c")
  case True
  then have "listed b \<and> indexOf priorityOrder (slug b) \<le> indexOf priorityOrder (slug c)"
    using bc by (simp add: workBefore_def)
  moreover from this have "listed a \<and> indexOf priorityOrder (slug a) \<le> indexOf priorityOrder (slug b)"
    using ab by (simp add: workBefore_def)
  ultimately show ?thesis using True by (simp add: workBefore_def)
next
  case False
  note nc = False
  show ?thesis
  proof (cases "listed a")
    case True
    then show ?thesis using nc by (simp add: workBefore_def)
  next
    case False
    have nb: "\<not> listed b"
    proof
      assume "listed b"
      then show False using ab False by (simp add: workBefore_def)
    qed
    obtain ay "by" where 1: "sortYear (year (meta a)) = Finite ay" "sortYear (year (meta b)) = Finite by"
        "by < ay \<or> (by = ay \<and> lc (sortName a) (sortName b) \<le> 0)"
      using ab False nb by (auto simp: workBefore_unlisted)
    obtain by' cy where 2: "sortYear (year (meta b)) = Finite by'" "sortYear (year (meta c)) = Finite cy"
        "cy < by' \<or> (cy = by' \<and> lc (sortName b) (sortName c) \<le> 0)"
      using bc nb nc by (auto simp: workBefore_unlisted)
    have e: "by' = by" using 1(2) 2(1) by simp
    have "cy < ay \<or> (cy = ay \<and> lc (sortName a) (sortName c) \<le> 0)"
      using 1(3) 2(3) e consistent_trans [OF c, of "sortName a" "sortName b" "sortName c"] by auto
    then show ?thesis using False nc 1(1) 2(2) by (auto simp: workBefore_unlisted)
  qed
qed

lemma workCompare_listed:
  "listed a \<or> listed b \<Longrightarrow>
   workCompare lc a b =
     (if listed a \<and> listed b then indexOf priorityOrder (slug a) - indexOf priorityOrder (slug b)
      else if listed a then - 1 else 1)"
  by (auto simp: workCompare_def Let_def listed_def)

lemma workCompare_unlisted:
  "\<not> listed a \<Longrightarrow> \<not> listed b \<Longrightarrow>
   sortYear (year (meta a)) = Finite ay \<Longrightarrow> sortYear (year (meta b)) = Finite by \<Longrightarrow>
   workCompare lc a b = (if ay \<noteq> by then by - ay else lc (sortName a) (sortName b))"
  by (simp add: workCompare_def Let_def listed_def)

lemma yearKnown_Finite: "yearKnown w \<Longrightarrow> \<exists>n. sortYear (year (meta w)) = Finite n"
  by (auto simp: yearKnown_def split: yearval.splits)

lemma workCompare_le:
  assumes "workCompare lc a b \<le> 0" and "listed a \<or> yearKnown a" and "listed b \<or> yearKnown b"
  shows "workBefore lc a b"
proof (cases "listed a \<or> listed b")
  case True
  then show ?thesis using assms(1)
    by (auto simp: workCompare_listed workBefore_def split: if_splits)
next
  case False
  then obtain ay "by" where y: "sortYear (year (meta a)) = Finite ay" "sortYear (year (meta b)) = Finite by"
    using assms(2,3) yearKnown_Finite by blast
  have "workCompare lc a b = (if ay \<noteq> by then by - ay else lc (sortName a) (sortName b))"
    using False y by (simp add: workCompare_unlisted)
  then have "by < ay \<or> (by = ay \<and> lc (sortName a) (sortName b) \<le> 0)"
    using assms(1) by (auto split: if_splits)
  then show ?thesis using False y by (auto simp: workBefore_unlisted)
qed

lemma workCompare_gt:
  assumes c: "consistent lc" and "\<not> workCompare lc a b \<le> 0"
    and "listed a \<or> yearKnown a" and "listed b \<or> yearKnown b"
  shows "workBefore lc b a"
proof (cases "listed a \<or> listed b")
  case True
  then show ?thesis using assms(2)
    by (auto simp: workCompare_listed workBefore_def split: if_splits)
next
  case False
  then obtain ay "by" where y: "sortYear (year (meta a)) = Finite ay" "sortYear (year (meta b)) = Finite by"
    using assms(3,4) yearKnown_Finite by blast
  have "workCompare lc a b = (if ay \<noteq> by then by - ay else lc (sortName a) (sortName b))"
    using False y by (simp add: workCompare_unlisted)
  then have "ay < by \<or> (ay = by \<and> \<not> lc (sortName a) (sortName b) \<le> 0)"
    using assms(2) by (auto split: if_splits)
  then have "ay < by \<or> (ay = by \<and> lc (sortName b) (sortName a) \<le> 0)"
    using consistent_total [OF c] by blast
  then show ?thesis using False y by (auto simp: workBefore_unlisted)
qed

lemma buildWorks_sorted_known_years:
  assumes c: "consistent lc"
    and known: "\<And>w. w \<in> set (buildWorks lc jsonModules mainImageModules main2ImageModules albumImageModules)
        \<Longrightarrow> listed w \<or> yearKnown w"
  shows "sorted_wrt (workBefore lc)
     (buildWorks lc jsonModules mainImageModules main2ImageModules albumImageModules)"
proof -
  define items where "items = filter keepItem
     (objValues (collectWorks lc jsonModules mainImageModules main2ImageModules albumImageModules))"
  have bw: "buildWorks lc jsonModules mainImageModules main2ImageModules albumImageModules
      = sortBy (workCompare lc) items"
    by (simp add: buildWorks_def items_def)
  have k: "\<And>w. w \<in> set items \<Longrightarrow> listed w \<or> yearKnown w"
    using known by (simp add: bw set_sortBy)
  have "sorted_wrt (workBefore lc) (sortBy (workCompare lc) items)"
  proof (rule sorted_wrt_sortBy)
    show "\<And>a b c. workBefore lc a b \<Longrightarrow> workBefore lc b c \<Longrightarrow> workBefore lc a c"
      using c by (rule workBefore_trans)
    show "\<And>x y. x \<in> set items \<Longrightarrow> y \<in> set items \<Longrightarrow> workCompare lc x y \<le> 0 \<Longrightarrow> workBefore lc x y"
      using k by (simp add: workCompare_le)
    show "\<And>x y. x \<in> set items \<Longrightarrow> y \<in> set items \<Longrightarrow> \<not> workCompare lc x y \<le> 0 \<Longrightarrow> workBefore lc y x"
      using k c by (simp add: workCompare_gt)
  qed
  then show ?thesis by (simp add: bw)
qed

text \<open>With a work that has no year the comparator is not transitive (2019 before the
  work without year by name, that one before 2020 by name, 2020 before 2019 by year), and
  the result, here with the stable insertion of \<open>sortBy\<close>, is not sorted by year (an
  engine may return another order for these three works, and for another order of the
  input).\<close>

lemma buildWorks_years_out_of_order:
  "map (\<lambda>w. (slug w, year (meta w)))
     (buildWorks codeCompare
        [(''/pages/a/a.json'', demoMeta ''a'' (Some (Num 2019)) None None),
         (''/pages/b/b.json'', demoMeta ''b'' None None None),
         (''/pages/c/c.json'', demoMeta ''c'' (Some (Num 2020)) None None)] [] [] [])
   = [(''a'', Some (Num 2019)), (''b'', None), (''c'', Some (Num 2020))]"
  by (simp add: evaluate)

text \<open>
  C1. Among the works that are not listed, a work without year should sort last. The
  comparator takes \<open>-Infinity\<close> for a missing year and then compares years only when both
  are finite, so a work without year is placed by its name alone: of the two works
  \<open>a\<close> (Zebra, 2020) and \<open>b\<close> (Alpha, no year), \<open>b\<close> comes first.
\<close>

theorem buildWorks_unknown_year_first:
  "map (\<lambda>w. (slug w, year (meta w)))
     (buildWorks codeCompare
        [(''/pages/a/a.json'', demoMeta ''Zebra'' (Some (Num 2020)) None None),
         (''/pages/b/b.json'', demoMeta ''Alpha'' None None None)] [] [] [])
   = [(''b'', None), (''a'', Some (Num 2020))]"
  by (simp add: evaluate)

subsection \<open>The carousel index\<close>

lemma jsRem_nonneg: "0 \<le> a \<Longrightarrow> 0 < b \<Longrightarrow> jsRem a b = a mod b"
  by (cases "a = 0") (simp_all add: jsRem_def)

lemma jsRem_range: "0 \<le> a \<Longrightarrow> 0 < b \<Longrightarrow> 0 \<le> jsRem a b \<and> jsRem a b < b"
  by (simp only: jsRem_nonneg pos_mod_sign pos_mod_bound simp_thms)

lemma nextIndex_range:
  assumes "albumImageUrls sel \<noteq> []" and "0 \<le> i"
  shows "0 \<le> nextIndex sel i \<and> nextIndex sel i < int (length (albumImageUrls sel))"
proof -
  have n: "0 < int (length (albumImageUrls sel))" using assms(1) by simp
  have "0 \<le> i + 1" using assms(2) by simp
  then show ?thesis unfolding nextIndex_def using n by (rule jsRem_range)
qed

lemma prevIndex_range:
  assumes "albumImageUrls sel \<noteq> []" and "0 \<le> i"
  shows "0 \<le> prevIndex sel i \<and> prevIndex sel i < int (length (albumImageUrls sel))"
proof -
  have n: "0 < int (length (albumImageUrls sel))" using assms(1) by simp
  then have "0 \<le> i - 1 + int (length (albumImageUrls sel))" using assms(2) by linarith
  then show ?thesis unfolding prevIndex_def using n by (rule jsRem_range)
qed


lemma selected_index_update:
  "selected works (st\<lparr>currentImageIndex := i\<rparr>) = selected works st"
  by (simp add: selected_def)

lemma indexOk_zero: "currentImageIndex st = 0 \<Longrightarrow> indexOk works st"
  by (cases "selected works st") (simp_all add: indexOk_def)

lemma indexOk_update:
  assumes "selected works st = Some sel"
    and "0 \<le> i \<and> i < int (length (albumImageUrls sel))"
  shows "indexOk works (st\<lparr>currentImageIndex := i\<rparr>)"
  using assms by (simp add: indexOk_def selected_index_update)

lemma indexOk_nonneg: "indexOk works st \<Longrightarrow> 0 \<le> currentImageIndex st"
  by (simp add: indexOk_def)

lemma step_indexOk:
  assumes ok: "indexOk works st"
  shows "indexOk works (step works st e)"
proof (cases "selected works st")
  case None
  then show ?thesis using ok by (cases e) (simp_all add: indexOk_zero)
next
  case (Some sel)
  note nn = indexOk_nonneg [OF ok]
  show ?thesis
  proof (cases e)
    case (SetSelectedSlug s)
    then show ?thesis using ok by (simp add: indexOk_zero)
  next
    case ArrowRight
    then show ?thesis using ok Some nn
      by (simp add: indexOk_update nextIndex_range)
  next
    case ArrowLeft
    then show ?thesis using ok Some nn
      by (simp add: indexOk_update prevIndex_range)
  next
    case ClickNext
    show ?thesis
    proof (cases "length (albumImageUrls sel) > 1")
      case True
      then have "albumImageUrls sel \<noteq> []" by auto
      then show ?thesis using ClickNext Some nn True
        by (simp add: indexOk_update nextIndex_range)
    next
      case False
      then show ?thesis using ClickNext Some ok by simp
    qed
  next
    case ClickPrev
    show ?thesis
    proof (cases "length (albumImageUrls sel) > 1")
      case True
      then have "albumImageUrls sel \<noteq> []" by auto
      then show ?thesis using ClickPrev Some nn True
        by (simp add: indexOk_update prevIndex_range)
    next
      case False
      then show ?thesis using ClickPrev Some ok by simp
    qed
  qed
qed

lemma foldl_step_indexOk: "indexOk works st \<Longrightarrow> indexOk works (foldl (step works) st evs)"
  by (induction evs arbitrary: st) (simp_all add: step_indexOk)

lemma runEvents_indexOk: "indexOk works (runEvents works evs)"
  unfolding runEvents_def
  by (rule foldl_step_indexOk) (simp add: indexOk_zero initialState_def)


lemma mod_prev: "0 \<le> i \<Longrightarrow> i < n \<Longrightarrow> (i - 1 + n) mod n = (if i = 0 then n - 1 else i - 1)" for i n :: int
proof (cases "i = 0")
  case True
  assume a: "0 \<le> i" "i < n"
  have "0 \<le> n - 1" "n - 1 < n" using a True by linarith+
  then have "(n - 1) mod n = n - 1" by (rule mod_pos_pos_trivial)
  moreover have "i - 1 + n = n - 1" using True by linarith
  ultimately have "(i - 1 + n) mod n = n - 1" by (simp only:)
  then show ?thesis using True by (simp only: if_True simp_thms)
next
  case False
  assume a: "0 \<le> i" "i < n"
  have "0 \<le> i - 1" "i - 1 < n" using a False by linarith+
  then have "(i - 1) mod n = i - 1" by (rule mod_pos_pos_trivial)
  moreover have "(i - 1 + n) mod n = (i - 1) mod n" by (rule mod_add_self2)
  ultimately have "(i - 1 + n) mod n = i - 1" by (simp only:)
  then show ?thesis using False by (simp only: if_False simp_thms)
qed

lemma mod_next: "0 \<le> i \<Longrightarrow> i < n \<Longrightarrow> (i + 1) mod n = (if i = n - 1 then 0 else i + 1)" for i n :: int
proof (cases "i = n - 1")
  case True
  then have "i + 1 = n" by linarith
  then have "(i + 1) mod n = 0" by (simp only: mod_self)
  then show ?thesis using True by (simp only: if_True simp_thms)
next
  case False
  assume a: "0 \<le> i" "i < n"
  have "0 \<le> i + 1" "i + 1 < n" using a False by linarith+
  then have "(i + 1) mod n = i + 1" by (rule mod_pos_pos_trivial)
  then show ?thesis using False by (simp only: if_False simp_thms)
qed

text \<open>
  C6. After any sequence of events, when a work with a non-empty album is selected, the
  carousel index lies in \<open>[0, albumLength - 1]\<close>; from there the right arrow and the
  next button go to the next image and from the last one back to 0, the left arrow and
  the previous button go to the previous image and from 0 to the last one, and every
  change of the selection sets the index to 0.
\<close>

theorem carousel_index_in_range:
  assumes "st = runEvents works evs"
    and "selected works st = Some sel"
    and "albumImageUrls sel \<noteq> []"
    and "n = int (length (albumImageUrls sel))"
  shows "0 \<le> currentImageIndex st \<and> currentImageIndex st < n
    \<and> currentImageIndex (step works st ArrowRight) =
        (if currentImageIndex st = n - 1 then 0 else currentImageIndex st + 1)
    \<and> currentImageIndex (step works st ArrowLeft) =
        (if currentImageIndex st = 0 then n - 1 else currentImageIndex st - 1)
    \<and> currentImageIndex (step works st ClickNext) =
        (if currentImageIndex st = n - 1 then 0 else currentImageIndex st + 1)
    \<and> currentImageIndex (step works st ClickPrev) =
        (if currentImageIndex st = 0 then n - 1 else currentImageIndex st - 1)
    \<and> (\<forall>s. s \<noteq> selectedSlug st \<longrightarrow> currentImageIndex (step works st (SetSelectedSlug s)) = 0)"
proof -
  have ok: "indexOk works st" using assms(1) runEvents_indexOk by simp
  have r0: "0 \<le> currentImageIndex st" using ok by (rule indexOk_nonneg)
  have r1: "currentImageIndex st < n"
    using ok assms(2,3,4) by (simp add: indexOk_def)
  have npos: "0 < n" using assms(3,4) by simp
  have "currentImageIndex (step works st ArrowRight) = jsRem (currentImageIndex st + 1) n"
    using assms(2,3,4) by (simp add: nextIndex_def)
  also have "\<dots> = (currentImageIndex st + 1) mod n"
    using r0 npos by (intro jsRem_nonneg) simp_all
  also have "\<dots> = (if currentImageIndex st = n - 1 then 0 else currentImageIndex st + 1)"
    using r0 r1 by (rule mod_next)
  finally have nx: "currentImageIndex (step works st ArrowRight) =
        (if currentImageIndex st = n - 1 then 0 else currentImageIndex st + 1)" .
  have "currentImageIndex (step works st ArrowLeft) = jsRem (currentImageIndex st - 1 + n) n"
    using assms(2,3,4) by (simp add: prevIndex_def)
  also have "\<dots> = (currentImageIndex st - 1 + n) mod n"
    using r0 npos by (intro jsRem_nonneg) simp_all
  also have "\<dots> = (if currentImageIndex st = 0 then n - 1 else currentImageIndex st - 1)"
    using r0 r1 by (rule mod_prev)
  finally have pv: "currentImageIndex (step works st ArrowLeft) =
        (if currentImageIndex st = 0 then n - 1 else currentImageIndex st - 1)" .
  have cn: "currentImageIndex (step works st ClickNext) =
        (if currentImageIndex st = n - 1 then 0 else currentImageIndex st + 1)"
  proof (cases "length (albumImageUrls sel) > 1")
    case True
    then have "step works st ClickNext = step works st ArrowRight"
      using assms(2,3) by simp
    then show ?thesis using nx by (simp only:)
  next
    case False
    then have n1: "n = 1" using assms(3,4) by (cases "albumImageUrls sel") simp_all
    then have i0: "currentImageIndex st = 0" using r0 r1 by linarith
    have "step works st ClickNext = st" using assms(2) False by simp
    then show ?thesis using n1 i0 by simp
  qed
  have cp: "currentImageIndex (step works st ClickPrev) =
        (if currentImageIndex st = 0 then n - 1 else currentImageIndex st - 1)"
  proof (cases "length (albumImageUrls sel) > 1")
    case True
    then have "step works st ClickPrev = step works st ArrowLeft"
      using assms(2,3) by simp
    then show ?thesis using pv by (simp only:)
  next
    case False
    then have n1: "n = 1" using assms(3,4) by (cases "albumImageUrls sel") simp_all
    then have i0: "currentImageIndex st = 0" using r0 r1 by linarith
    have "step works st ClickPrev = st" using assms(2) False by simp
    then show ?thesis using n1 i0 by simp
  qed
  have rs: "\<forall>s. s \<noteq> selectedSlug st \<longrightarrow> currentImageIndex (step works st (SetSelectedSlug s)) = 0"
    by simp
  from r0 r1 nx pv cn cp rs show ?thesis by (intro conjI)
qed

text \<open>The session \<open>demoEvents\<close>: the click selects the work with three images, the left
  arrow wraps from 0 to the last image.\<close>

lemma demo_state:
  "runEvents [demoWork] demoEvents = \<lparr>selectedSlug = Some ''a'', currentImageIndex = 2\<rparr>"
  by (simp add: runEvents_def demoEvents_def initialState_def selected_def demoWork_def
      newItem_def prevIndex_def jsRem_def)

theorem carousel_index_in_range_witness:
  "runEvents [demoWork] demoEvents = \<lparr>selectedSlug = Some ''a'', currentImageIndex = 2\<rparr>
   \<and> currentImageIndex (step [demoWork] (runEvents [demoWork] demoEvents) ArrowRight) = 0
   \<and> currentImageIndex (step [demoWork] (runEvents [demoWork] demoEvents) ArrowLeft) = 1
   \<and> currentImageIndex (step [demoWork] (runEvents [demoWork] demoEvents) ClickNext) = 0
   \<and> currentImageIndex (step [demoWork] (runEvents [demoWork] demoEvents) ClickPrev) = 1
   \<and> currentImageIndex (step [demoWork] (runEvents [demoWork] demoEvents) (SetSelectedSlug None)) = 0"
proof -
  have h2: "selected [demoWork] (runEvents [demoWork] demoEvents) = Some demoWork"
    by (simp add: demo_state selected_def) (simp add: demoWork_def newItem_def)
  have h3: "albumImageUrls demoWork \<noteq> []"
    by (simp add: demoWork_def newItem_def)
  have h4: "3 = int (length (albumImageUrls demoWork))"
    by (simp add: demoWork_def newItem_def)
  have i2: "currentImageIndex (runEvents [demoWork] demoEvents) = 2"
    by (simp add: demo_state)
  have s2: "None \<noteq> selectedSlug (runEvents [demoWork] demoEvents)"
    by (simp add: demo_state)
  note c = carousel_index_in_range [OF refl h2 h3 h4]
  from c have 1: "currentImageIndex (step [demoWork] (runEvents [demoWork] demoEvents) ArrowRight) = 0"
    using i2 by simp
  from c have 2: "currentImageIndex (step [demoWork] (runEvents [demoWork] demoEvents) ArrowLeft) = 1"
    using i2 by simp
  from c have 3: "currentImageIndex (step [demoWork] (runEvents [demoWork] demoEvents) ClickNext) = 0"
    using i2 by simp
  from c have 4: "currentImageIndex (step [demoWork] (runEvents [demoWork] demoEvents) ClickPrev) = 1"
    using i2 by simp
  from c s2 have 5: "currentImageIndex (step [demoWork] (runEvents [demoWork] demoEvents) (SetSelectedSlug None)) = 0"
    by blast
  from demo_state 1 2 3 4 5 show ?thesis by (intro conjI)
qed

subsection \<open>The geocoder\<close>

lemma geocode_hit:
  "map_of (cache st) q = Some pos \<Longrightarrow> geocode pf fetch q st = (Some pos, st)"
  by (simp add: geocode_def)

lemma geocode_Some:
  assumes "geocode pf fetch q st = (Some pos, st')"
  shows "map_of (cache st') q = Some pos \<and> requests st' \<le> requests st + 1"
proof (cases "map_of (cache st) q")
  case (Some p)
  then show ?thesis using assms by (simp add: geocode_def)
next
  case None
  then show ?thesis using assms
    by (auto simp: geocode_def Let_def map_of_objSet split: response.splits list.splits)
qed

lemma geocode_None:
  assumes "geocode pf fetch q st = (None, st')"
  shows "st' = st\<lparr>requests := requests st + 1\<rparr> \<and> map_of (cache st) q = None"
proof (cases "map_of (cache st) q")
  case (Some p)
  then show ?thesis using assms by (simp add: geocode_def)
next
  case None
  then show ?thesis using assms
    by (auto simp: geocode_def Let_def split: response.splits list.splits)
qed

lemma geocode_miss_requests:
  "map_of (cache st) q = None \<Longrightarrow> requests (snd (geocode pf fetch q st)) = requests st + 1"
  by (auto simp: geocode_def Let_def split: response.splits list.splits)

text \<open>
  C7, as the code has it. A lookup that succeeds leaves the position in the cache under
  the exact query string: looking the query up again returns the same position and sends
  no request, so the two lookups send at most one. A lookup that fails (network error,
  response not OK, body that is no JSON, empty result) sends one request and stores
  nothing: looking the query up again sends a second request.
\<close>

theorem geocode_second_lookup:
  "(geocode pf fetch q st = (Some pos, st') \<longrightarrow>
      geocode pf fetch q st' = (Some pos, st') \<and> requests st' \<le> requests st + 1)
   \<and> (geocode pf fetch q st = (None, st') \<longrightarrow>
      cache st' = cache st \<and> requests st' = requests st + 1
      \<and> requests (snd (geocode pf fetch q st')) = requests st + 2)"
proof (intro conjI impI)
  assume a: "geocode pf fetch q st = (Some pos, st')"
  show "geocode pf fetch q st' = (Some pos, st')"
    using geocode_Some [OF a] by (simp add: geocode_hit)
  show "requests st' \<le> requests st + 1"
    using geocode_Some [OF a] by simp
next
  assume a: "geocode pf fetch q st = (None, st')"
  note n = geocode_None [OF a]
  show "cache st' = cache st" using n by simp
  show "requests st' = requests st + 1" using n by simp
  have "map_of (cache st') q = None" using n by simp
  then have "requests (snd (geocode pf fetch q st')) = requests st' + 1"
    by (rule geocode_miss_requests)
  then show "requests (snd (geocode pf fetch q st')) = requests st + 2" using n by simp
qed

text \<open>
  C7, as the claim states it, fails: with the service offline, two lookups of the same
  query send two requests.
\<close>

theorem geocode_failure_counterexample:
  "requests (snd (geocode (\<lambda>s. s) offline ''Vic'' (snd (geocode (\<lambda>s. s) offline ''Vic'' emptyGeo)))) = 2"
  by (simp add: geocode_def emptyGeo_def offline_def)

lemma demo_geocode:
  "geocode (\<lambda>s. s) vicService ''Vic'' emptyGeo
     = (Some \<lparr>lat = ''41.93'', lng = ''2.25''\<rparr>,
        \<lparr>cache = [(''Vic'', \<lparr>lat = ''41.93'', lng = ''2.25''\<rparr>)],
         storage = [(''Vic'', \<lparr>lat = ''41.93'', lng = ''2.25''\<rparr>)], requests = 1\<rparr>)"
  by (simp add: geocode_def Let_def emptyGeo_def vicService_def)

theorem geocode_second_lookup_witness:
  "geocode (\<lambda>s. s) vicService ''Vic''
      \<lparr>cache = [(''Vic'', \<lparr>lat = ''41.93'', lng = ''2.25''\<rparr>)],
       storage = [(''Vic'', \<lparr>lat = ''41.93'', lng = ''2.25''\<rparr>)], requests = 1\<rparr>
     = (Some \<lparr>lat = ''41.93'', lng = ''2.25''\<rparr>,
        \<lparr>cache = [(''Vic'', \<lparr>lat = ''41.93'', lng = ''2.25''\<rparr>)],
         storage = [(''Vic'', \<lparr>lat = ''41.93'', lng = ''2.25''\<rparr>)], requests = 1\<rparr>)"
  using geocode_second_lookup [of "\<lambda>s. s" vicService "''Vic''" emptyGeo
      "\<lparr>lat = ''41.93'', lng = ''2.25''\<rparr>"
      "\<lparr>cache = [(''Vic'', \<lparr>lat = ''41.93'', lng = ''2.25''\<rparr>)],
         storage = [(''Vic'', \<lparr>lat = ''41.93'', lng = ''2.25''\<rparr>)], requests = 1\<rparr>"]
    demo_geocode by blast

text \<open>The loop of \<open>run\<close>.\<close>

lemma run_append:
  "run pf fetch (xs @ ys) rs st =
     run pf fetch ys (fst (run pf fetch xs rs st)) (snd (run pf fetch xs rs st))"
  by (induction xs arbitrary: rs st) (auto split: prod.splits option.splits)

lemma run_works:
  "fst ` set (fst (run pf fetch as rs st)) \<subseteq> fst ` set rs \<union> fst ` set as"
proof (induction as arbitrary: rs st)
  case Nil
  then show ?case by simp
next
  case (Cons a as)
  show ?case
  proof (cases "geocode pf fetch (snd a) st")
    case (Pair r st1)
    show ?thesis
    proof (cases r)
      case None
      then show ?thesis using Pair Cons.IH [of rs st1] by auto
    next
      case (Some pos)
      then show ?thesis using Pair Cons.IH [of "rs @ [(fst a, pos)]" st1] by auto
    qed
  qed
qed

lemma geocode_requests_le: "requests (snd (geocode pf fetch q st)) \<le> requests st + 1"
  by (auto simp: geocode_def Let_def split: option.splits response.splits list.splits)

lemma run_requests_le:
  "requests (snd (run pf fetch as rs st)) \<le> requests st + length as"
proof (induction as arbitrary: rs st)
  case Nil
  then show ?case by simp
next
  case (Cons a as)
  show ?case
  proof (cases "geocode pf fetch (snd a) st")
    case (Pair r st1)
    have le: "requests st1 \<le> requests st + 1"
      using geocode_requests_le [of pf fetch "snd a" st] Pair by simp
    show ?thesis
    proof (cases r)
      case None
      then show ?thesis using Pair le Cons.IH [of rs st1] by simp
    next
      case (Some pos)
      then show ?thesis using Pair le Cons.IH [of "rs @ [(fst a, pos)]" st1] by simp
    qed
  qed
qed

lemma addresses_append: "addresses (xs @ ys) = addresses xs @ addresses ys"
  by (simp add: addresses_def)

lemma addresses_works: "fst ` set (addresses ws) \<subseteq> set ws"
  by (auto simp: addresses_def)

lemma addresses_Cons:
  "queryOf w \<noteq> [] \<Longrightarrow> addresses (w # ws) = (w, queryOf w) # addresses ws"
  by (simp add: addresses_def)

lemma mapView_omits_failed:
  assumes works: "works = pre @ w # post"
    and dist: "distinct works"
    and q: "queryOf w \<noteq> []"
    and pre: "run pf fetch (addresses pre) [] st0 = (rs, st)"
    and fail: "geocode pf fetch (queryOf w) st = (None, st')"
  shows "w \<notin> set (mapView pf fetch works st0)"
proof -
  have "addresses works = addresses pre @ (w, queryOf w) # addresses post"
    using works q by (simp add: addresses_append addresses_Cons)
  then have "run pf fetch (addresses works) [] st0
      = run pf fetch ((w, queryOf w) # addresses post) rs st"
    using pre by (simp add: run_append)
  also have "\<dots> = run pf fetch (addresses post) rs st'"
    using fail by simp
  finally have eq: "run pf fetch (addresses works) [] st0 = run pf fetch (addresses post) rs st'" .
  have "fst ` set rs \<subseteq> set pre"
    using run_works [of pf fetch "addresses pre" "[]" st0] pre addresses_works [of pre] by auto
  moreover have "fst ` set (fst (run pf fetch (addresses post) rs st')) \<subseteq> fst ` set rs \<union> set post"
    using run_works [of pf fetch "addresses post" rs st'] addresses_works [of post] by blast
  moreover have "w \<notin> set pre" "w \<notin> set post" using works dist by auto
  ultimately have "w \<notin> fst ` set (fst (run pf fetch (addresses post) rs st'))" by blast
  then show ?thesis by (simp add: mapView_def eq)
qed

subsection \<open>monthToIndex\<close>

lemma monthToIndex_number:
  "monthToIndex (Some (Num n)) = Index (min 11 (max 0 (n - 1)))"
  by (simp add: monthToIndex_def)

lemma monthToIndex_number_in_range:
  "\<exists>i. monthToIndex (Some (Num n)) = Index i \<and> 0 \<le> i \<and> i \<le> 11"
  by (simp add: monthToIndex_def)

lemma monthToIndex_unknown_string:
  assumes "map_of monthTable (toLowerCase (trim t)) = None"
    and "toLowerCase (trim t) \<notin> set prototypeKeys"
  shows "monthToIndex (Some (Str t)) = Null"
  using assms by (simp add: monthToIndex_def Let_def)

lemma monthTable_range: "map_of monthTable s = Some i \<Longrightarrow> 0 \<le> i \<and> i \<le> 11"
proof -
  assume "map_of monthTable s = Some i"
  then have "i \<in> snd ` set monthTable" by (metis map_of_SomeD image_eqI snd_conv)
  then show ?thesis by (auto simp: monthTable_def)
qed

lemma monthToIndex_range: "monthToIndex mo = Index m \<Longrightarrow> 0 \<le> m \<and> m \<le> 11"
  by (auto simp: monthToIndex_def Let_def dest: monthTable_range
      split: option.splits numstr.splits if_splits)

lemma monthKey_range: "monthKey w = Index m \<Longrightarrow> 0 \<le> m \<and> m \<le> 11"
  by (auto simp: monthKey_def dest: monthToIndex_range split: monthIndex.splits)

text \<open>
  C10. For an integral number the result is \<open>m - 1\<close> clamped to \<open>[0, 11]\<close>
  (\<open>monthToIndex_number_in_range\<close>; a fractional month cannot be written as \<open>Num\<close>). For a string that is no month name the result is
  \<open>null\<close> (\<open>monthToIndex_unknown_string\<close>) unless the string names a member of
  \<open>Object.prototype\<close>: the month \<open>constructor\<close> is no month name, and \<open>monthToIndex\<close>
  returns the inherited member for it, not \<open>null\<close>.
\<close>

theorem monthToIndex_constructor:
  "monthToIndex (Some (Str ''constructor'')) = Inherited ''constructor''"
  by (simp add: monthToIndex_def Let_def toLowerCase_def trim_def isWhite_def lowerChar_def
      upperChars_def lowerChars_def monthTable_def prototypeKeys_def)

subsection \<open>The timeline\<close>

lemma monthWorks_addWork:
  "monthWorks (addWork yearMap w) y k =
     monthWorks yearMap y k @ (if inBucket y k w then [w] else [])"
proof (cases "timelineYear w")
  case None
  then show ?thesis by (simp add: addWork_def inBucket_def)
next
  case (Some y')
  then show ?thesis
    by (auto simp: addWork_def inBucket_def monthWorks_def Let_def map_of_objSet
        split: option.splits)
qed

lemma monthWorks_foldl:
  "monthWorks (foldl addWork yearMap ws) y k = monthWorks yearMap y k @ filter (inBucket y k) ws"
  by (induction ws arbitrary: yearMap) (simp_all add: monthWorks_addWork)

lemma monthWorks_all:
  "monthWorks (foldl addWork [] ws) y k = filter (inBucket y k) ws"
  by (simp add: monthWorks_foldl) (simp add: monthWorks_def)

lemma keys_addWork:
  "fst ` set (addWork yearMap w) =
     fst ` set yearMap \<union> (case timelineYear w of None \<Rightarrow> {} | Some y \<Rightarrow> {y})"
  by (cases "timelineYear w") (simp_all add: addWork_def Let_def keys_objSet)

lemma keys_foldl_addWork:
  "fst ` set (foldl addWork yearMap ws) =
     fst ` set yearMap \<union> {y. \<exists>w\<in>set ws. timelineYear w = Some y}"
proof (induction ws arbitrary: yearMap)
  case Nil
  then show ?case by simp
next
  case (Cons w ws)
  show ?case
    by (cases "timelineYear w") (auto simp: Cons.IH keys_addWork)
qed

lemma distinct_keys_addWork:
  "distinct (map fst yearMap) \<Longrightarrow> distinct (map fst (addWork yearMap w))"
  by (cases "timelineYear w") (simp_all add: addWork_def Let_def distinct_keys_objSet)

lemma distinct_keys_foldl_addWork:
  "distinct (map fst yearMap) \<Longrightarrow> distinct (map fst (foldl addWork yearMap ws))"
  by (induction ws arbitrary: yearMap) (simp_all add: distinct_keys_addWork)

lemma timelineData_points:
  "set (timelineData works) =
     (\<Union>y \<in> {y. \<exists>w\<in>set works. timelineYear w = Some y}.
        set (yearPoints (foldl addWork [] works) y))"
  by (simp add: timelineData_def Let_def set_sortBy keys_foldl_addWork)

lemma yearPoints_member:
  "p \<in> set (yearPoints yearMap y) \<longleftrightarrow>
     (\<exists>m\<in>set monthSlots. p = \<lparr>tp_year = y, tp_month = m,
        tp_works = monthWorks yearMap y (Index m), timestamp = y * 12 + m\<rparr>)"
  by (auto simp: yearPoints_def)

lemma timelineData_member:
  "p \<in> set (timelineData works) \<longleftrightarrow>
     (\<exists>w\<in>set works. timelineYear w = Some (tp_year p)) \<and> tp_month p \<in> set monthSlots
     \<and> tp_works p = filter (inBucket (tp_year p) (Index (tp_month p))) works
     \<and> timestamp p = tp_year p * 12 + tp_month p"
  unfolding timelineData_points
  by (cases p) (auto simp: yearPoints_member monthWorks_all)


lemma monthSlots_set: "m \<in> set monthSlots \<longleftrightarrow> 0 \<le> m \<and> m \<le> 11"
proof
  assume "m \<in> set monthSlots"
  then show "0 \<le> m \<and> m \<le> 11" by (auto simp: monthSlots_def)
next
  assume "0 \<le> m \<and> m \<le> 11"
  then have "m = 0 \<or> m = 1 \<or> m = 2 \<or> m = 3 \<or> m = 4 \<or> m = 5 \<or> m = 6 \<or> m = 7
      \<or> m = 8 \<or> m = 9 \<or> m = 10 \<or> m = 11" by arith
  then show "m \<in> set monthSlots" by (auto simp: monthSlots_def)
qed

lemma distinct_monthSlots: "distinct monthSlots"
  by (simp add: monthSlots_def)

lemma pointKey_yearPoints: "map pointKey (yearPoints yearMap y) = map (Pair y) monthSlots"
  by (simp add: yearPoints_def pointKey_def comp_def)

lemma distinct_concat_years:
  "distinct ys \<Longrightarrow> distinct (concat (map (\<lambda>y. map (Pair y) monthSlots) ys))"
  by (induction ys) (auto simp: distinct_map distinct_monthSlots inj_on_def)

lemma map_pointKey_concat:
  "map pointKey (concat (map (yearPoints yearMap) ys)) =
     concat (map (\<lambda>y. map (Pair y) monthSlots) ys)"
  by (induction ys) (simp_all add: pointKey_yearPoints)

lemma timelineData_distinct: "distinct (map pointKey (timelineData works))"
proof -
  have "distinct (map fst (foldl addWork [] works))"
    by (rule distinct_keys_foldl_addWork) simp
  then have "distinct (sortBy (\<lambda>a b. b - a) (map fst (foldl addWork [] works)))"
    by (simp add: distinct_sortBy)
  then show ?thesis
    by (simp add: timelineData_def Let_def distinct_map_sortBy map_pointKey_concat
        distinct_concat_years)
qed

lemmas evaluate_timeline =
  timelineData_def Let_def addWork_def timelineYear_def monthKey_def monthToIndex_def
  yearPoints_def monthSlots_def monthWorks_def sortBy_def parseInt_def isWhite_def isDigit_def
  digitsVal_def digitVal_def workA_def workB_def workMaig_def workZero_def workUndated_def
  newItem_def demoMeta_def
  toLowerCase_def trim_def lowerChar_def upperChars_def lowerChars_def monthTable_def

text \<open>The example of the specification: a work of May 2023, written \<open>maig\<close>.\<close>

lemma timeline_maig_example:
  "map (\<lambda>p. (tp_year p, tp_month p, map slug (tp_works p))) (timelineData [workMaig]) =
     [(2023, 11, []), (2023, 10, []), (2023, 9, []), (2023, 8, []), (2023, 7, []), (2023, 6, []),
      (2023, 5, []), (2023, 4, [''m'']), (2023, 3, []), (2023, 2, []), (2023, 1, []),
      (2023, 0, [])]"
  by (simp add: evaluate_timeline)

lemma timelineYear_metaYear: "timelineYear w = Some y \<longleftrightarrow> y \<noteq> 0 \<and> metaYear w = Some y"
  by (auto simp: timelineYear_def metaYear_def split: option.splits numstr.splits if_splits)

lemma timelineData_keys:
  "set (map pointKey (timelineData works)) =
     {y. \<exists>w\<in>set works. timelineYear w = Some y} \<times> {m. 0 \<le> m \<and> m \<le> 11}"
proof (intro set_eqI iffI)
  fix ym :: "int \<times> int" assume "ym \<in> set (map pointKey (timelineData works))"
  then obtain p where p: "p \<in> set (timelineData works)" "ym = pointKey p" by auto
  then show "ym \<in> {y. \<exists>w\<in>set works. timelineYear w = Some y} \<times> {m. 0 \<le> m \<and> m \<le> 11}"
    by (auto simp: timelineData_member pointKey_def monthSlots_set)
next
  fix ym :: "int \<times> int" assume a: "ym \<in> {y. \<exists>w\<in>set works. timelineYear w = Some y} \<times> {m. 0 \<le> m \<and> m \<le> 11}"
  obtain y m where ym: "ym = (y, m)" by (cases ym)
  define p where "p = \<lparr>tp_year = y, tp_month = m,
      tp_works = filter (inBucket y (Index m)) works, timestamp = y * 12 + m\<rparr>"
  have "p \<in> set (timelineData works)"
    using a ym by (simp add: timelineData_member p_def monthSlots_set)
  moreover have "pointKey p = ym" by (simp add: p_def pointKey_def ym)
  ultimately show "ym \<in> set (map pointKey (timelineData works))" by force
qed

text \<open>
  C9, as the code has it. The points of the timeline are exactly the pairs of a year and
  a month index from 0 to 11, each pair once and whether the month has works or not, for
  the years other than 0 that the metadata of at least one work give (the number, or what
  \<open>parseInt\<close> reads from the string). A work whose year is 0, is missing, or is a string
  without leading digits gives no year.
\<close>

theorem timeline_points_of_years:
  "set (map pointKey (timelineData works)) =
     {y. y \<noteq> 0 \<and> (\<exists>w\<in>set works. metaYear w = Some y)} \<times> {m. 0 \<le> m \<and> m \<le> 11}
   \<and> distinct (map pointKey (timelineData works))"
proof -
  have "{y. \<exists>w\<in>set works. timelineYear w = Some y}
      = {y. y \<noteq> 0 \<and> (\<exists>w\<in>set works. metaYear w = Some y)}"
    by (auto simp: timelineYear_metaYear)
  then have "set (map pointKey (timelineData works)) =
     {y. y \<noteq> 0 \<and> (\<exists>w\<in>set works. metaYear w = Some y)} \<times> {m. 0 \<le> m \<and> m \<le> 11}"
    using timelineData_keys [of works] by simp
  then show ?thesis using timelineData_distinct by simp
qed

theorem timeline_points_of_years_witness:
  "(2023, 4) \<in> set (map pointKey (timelineData [workMaig]))
   \<and> (2023, 0) \<in> set (map pointKey (timelineData [workMaig]))
   \<and> (2022, 4) \<notin> set (map pointKey (timelineData [workMaig]))
   \<and> (2023, 12) \<notin> set (map pointKey (timelineData [workMaig]))"
proof -
  have m: "metaYear workMaig = Some 2023"
    by (simp add: metaYear_def workMaig_def newItem_def demoMeta_def)
  have "set (map pointKey (timelineData [workMaig])) =
     {y. y \<noteq> 0 \<and> (\<exists>w\<in>set [workMaig]. metaYear w = Some y)} \<times> {m. 0 \<le> m \<and> m \<le> 11}"
    using timeline_points_of_years [of "[workMaig]"] by (rule conjunct1)
  then have "set (map pointKey (timelineData [workMaig])) = {2023} \<times> {m. 0 \<le> m \<and> m \<le> 11}"
    using m by auto
  then show ?thesis by simp
qed

text \<open>
  C9, as the claim states it, fails: a work of the year 0 is dated, and the timeline has
  no point for the year 0 (it has no point at all).
\<close>

theorem timeline_year_zero_counterexample:
  "year (meta workZero) = Some (Num 0) \<and> timelineData [workZero] = []"
  by (simp add: evaluate_timeline)

lemma timeline_shows:
  assumes "w \<in> set works" and "timelineYear w = Some y" and "monthKey w = Index m"
  shows "\<exists>p\<in>set (timelineData works). tp_year p = y \<and> tp_month p = m \<and> w \<in> set (tp_works p)"
proof -
  define p where "p = \<lparr>tp_year = y, tp_month = m,
      tp_works = filter (inBucket y (Index m)) works, timestamp = y * 12 + m\<rparr>"
  have "m \<in> set monthSlots" using monthKey_range [OF assms(3)] by (simp add: monthSlots_set)
  then have "p \<in> set (timelineData works)"
    using assms(1,2) by (auto simp: timelineData_member p_def)
  moreover have "w \<in> set (tp_works p)" using assms by (simp add: p_def inBucket_def)
  moreover have "tp_year p = y" "tp_month p = m" by (simp_all add: p_def)
  ultimately show ?thesis by blast
qed

lemma timeline_only:
  assumes "p \<in> set (timelineData works)" and "w \<in> set (tp_works p)"
  shows "timelineYear w = Some (tp_year p) \<and> monthKey w = Index (tp_month p)"
  using assms by (auto simp: timelineData_member inBucket_def)

text \<open>
  C4, as the code has it. In the timeline that the page renders (\<open>TimelineView\<close>), a work
  with a usable year and no month, or with a month string for which \<open>monthToIndex\<close> returns
  \<open>null\<close>, is put in month 0 (January) of its year and in no other month: such works are
  not spread over the year. (\<open>CalendarView\<close>, which spreads them by index, is rendered
  nowhere, and it computes the slot in floating point; it is not part of the embedding.)
\<close>

theorem timeline_missing_month_in_january:
  assumes "w \<in> set works" and "timelineYear w = Some y"
    and "monthToIndex (month (meta w)) = Null"
  shows "(\<exists>p\<in>set (timelineData works). tp_year p = y \<and> tp_month p = 0 \<and> w \<in> set (tp_works p))
     \<and> (\<forall>p\<in>set (timelineData works). w \<in> set (tp_works p) \<longrightarrow> tp_year p = y \<and> tp_month p = 0)"
proof -
  have k: "monthKey w = Index 0" using assms(3) by (simp add: monthKey_def)
  have one: "\<exists>p\<in>set (timelineData works). tp_year p = y \<and> tp_month p = 0 \<and> w \<in> set (tp_works p)"
    using assms(1,2) k by (rule timeline_shows)
  have "\<forall>p\<in>set (timelineData works). w \<in> set (tp_works p) \<longrightarrow> tp_year p = y \<and> tp_month p = 0"
    using timeline_only [of _ works w] assms(2) k by fastforce
  with one show ?thesis by simp
qed

theorem timeline_missing_month_in_january_witness:
  "\<exists>p\<in>set (timelineData [workA, workB]). tp_year p = 2020 \<and> tp_month p = 0 \<and> workB \<in> set (tp_works p)"
proof -
  have 1: "workB \<in> set [workA, workB]" by simp
  have 2: "timelineYear workB = Some 2020"
    by (simp add: timelineYear_def workB_def newItem_def demoMeta_def parseInt_def Let_def
        isWhite_def isDigit_def digitsVal_def digitVal_def)
  have 3: "monthToIndex (month (meta workB)) = Null"
    by (simp add: monthToIndex_def workB_def newItem_def demoMeta_def)
  from timeline_missing_month_in_january [OF 1 2 3] show ?thesis by (rule conjunct1)
qed

text \<open>
  C4, as the claim states it, fails: two works of 2020 without month are both in month 0,
  and the other eleven months of 2020 are empty.
\<close>

theorem timeline_missing_month_counterexample:
  "map (\<lambda>p. (tp_year p, tp_month p, map slug (tp_works p))) (timelineData [workA, workB]) =
     [(2020, 11, []), (2020, 10, []), (2020, 9, []), (2020, 8, []), (2020, 7, []), (2020, 6, []),
      (2020, 5, []), (2020, 4, []), (2020, 3, []), (2020, 2, []), (2020, 1, []),
      (2020, 0, [''a'', ''b''])]"
  by (simp add: evaluate_timeline)

subsection \<open>A failed lookup and the views\<close>

text \<open>
  C8, as the code has it. When the lookup of a work fails, the work gets no marker on the
  map; the lookup has sent one request and none is repeated (the whole run sends at most
  one request per address); \<open>geocode\<close> returns \<open>null\<close> and raises nothing. The grid and
  the list show the work all the same. The timeline shows it, in its year, when the
  metadata give a year other than 0 and \<open>monthToIndex\<close> gives an index or \<open>null\<close> for
  its month; the timeline does not show it when the metadata give no year or the year 0.
  The works are those of a list without repetition, as the list of \<open>buildWorks\<close> is
  (\<open>buildWorks_distinct\<close>).
\<close>

theorem failed_geocode_omits_from_map_only:
  assumes works: "works = pre @ w # post"
    and dist: "distinct works"
    and q: "queryOf w \<noteq> []"
    and pre: "run pf fetch (addresses pre) [] st0 = (rs, st)"
    and fail: "geocode pf fetch (queryOf w) st = (None, st')"
  shows "w \<notin> set (mapView pf fetch works st0)
    \<and> requests st' = requests st + 1
    \<and> requests (snd (run pf fetch (addresses works) [] st0)) \<le> requests st0 + length (addresses works)
    \<and> (slug w, mainImageUrl w, nom (meta w)) \<in> set (gridView works)
    \<and> (slug w, orElse (main2ImageUrl w) (mainImageUrl w), nom (meta w)) \<in> set (listView works)
    \<and> (\<forall>y. y \<noteq> 0 \<and> metaYear w = Some y \<and> (\<forall>s. monthToIndex (month (meta w)) \<noteq> Inherited s) \<longrightarrow>
          (\<exists>p\<in>set (timelineData works). tp_year p = y \<and> w \<in> set (tp_works p)))
    \<and> ((\<forall>y. metaYear w = Some y \<longrightarrow> y = 0) \<longrightarrow>
          (\<forall>p\<in>set (timelineData works). w \<notin> set (tp_works p)))"
proof -
  have mem: "w \<in> set works" using works by simp
  have 1: "w \<notin> set (mapView pf fetch works st0)"
    using works dist q pre fail by (rule mapView_omits_failed)
  have 2: "requests st' = requests st + 1" using geocode_None [OF fail] by simp
  have 3: "requests (snd (run pf fetch (addresses works) [] st0)) \<le> requests st0 + length (addresses works)"
    by (rule run_requests_le)
  have 4: "(slug w, mainImageUrl w, nom (meta w)) \<in> set (gridView works)"
    using mem by (auto simp: gridView_def)
  have 5: "(slug w, orElse (main2ImageUrl w) (mainImageUrl w), nom (meta w)) \<in> set (listView works)"
    using mem by (auto simp: listView_def)
  have 6: "\<forall>y. y \<noteq> 0 \<and> metaYear w = Some y \<and> (\<forall>s. monthToIndex (month (meta w)) \<noteq> Inherited s) \<longrightarrow>
          (\<exists>p\<in>set (timelineData works). tp_year p = y \<and> w \<in> set (tp_works p))"
  proof (intro allI impI)
    fix y
    assume a: "y \<noteq> 0 \<and> metaYear w = Some y \<and> (\<forall>s. monthToIndex (month (meta w)) \<noteq> Inherited s)"
    then have ty: "timelineYear w = Some y" by (simp add: timelineYear_metaYear)
    obtain m where mk: "monthKey w = Index m"
      using a by (cases "monthToIndex (month (meta w))") (simp_all add: monthKey_def)
    from timeline_shows [OF mem ty mk]
    show "\<exists>p\<in>set (timelineData works). tp_year p = y \<and> w \<in> set (tp_works p)" by blast
  qed
  have 7: "(\<forall>y. metaYear w = Some y \<longrightarrow> y = 0) \<longrightarrow>
          (\<forall>p\<in>set (timelineData works). w \<notin> set (tp_works p))"
  proof (intro impI ballI notI)
    fix p
    assume a: "\<forall>y. metaYear w = Some y \<longrightarrow> y = 0"
      and p: "p \<in> set (timelineData works)" and m: "w \<in> set (tp_works p)"
    have "timelineYear w = Some (tp_year p)" using timeline_only [OF p m] by simp
    then have "tp_year p \<noteq> 0 \<and> metaYear w = Some (tp_year p)" by (simp add: timelineYear_metaYear)
    then show False using a by blast
  qed
  from 1 2 3 4 5 6 7 show ?thesis by (intro conjI)
qed

text \<open>
  C8, as the claim states it, fails: the lookup of a work in Nowhere fails, and the work,
  which has no year, is neither on the map nor in the timeline, which is another view.
\<close>

theorem failed_geocode_undated_counterexample:
  "geocode (\<lambda>s. s) vicService (queryOf workUndated) emptyGeo
     = (None, \<lparr>cache = [], storage = [], requests = 1\<rparr>)
   \<and> mapView (\<lambda>s. s) vicService [workUndated] emptyGeo = []
   \<and> timelineData [workUndated] = []"
  by (simp add: evaluate_timeline mapView_def addresses_def geocode_def vicService_def
      queryOf_def orElse_def truthy_def emptyGeo_def)

lemma demo_run_pre:
  "run (\<lambda>s. s) vicService (addresses [workA]) [] emptyGeo =
     ([(workA, \<lparr>lat = ''41.93'', lng = ''2.25''\<rparr>)],
      \<lparr>cache = [(''Vic'', \<lparr>lat = ''41.93'', lng = ''2.25''\<rparr>)],
       storage = [(''Vic'', \<lparr>lat = ''41.93'', lng = ''2.25''\<rparr>)], requests = 1\<rparr>)"
proof -
  have "addresses [workA] = [(workA, ''Vic'')]"
    by (simp add: addresses_def queryOf_def orElse_def truthy_def workA_def newItem_def demoMeta_def)
  then show ?thesis by (simp add: demo_geocode)
qed

lemma demo_fail:
  "geocode (\<lambda>s. s) vicService (queryOf workB)
      \<lparr>cache = [(''Vic'', \<lparr>lat = ''41.93'', lng = ''2.25''\<rparr>)],
       storage = [(''Vic'', \<lparr>lat = ''41.93'', lng = ''2.25''\<rparr>)], requests = 1\<rparr>
    = (None, \<lparr>cache = [(''Vic'', \<lparr>lat = ''41.93'', lng = ''2.25''\<rparr>)],
       storage = [(''Vic'', \<lparr>lat = ''41.93'', lng = ''2.25''\<rparr>)], requests = 2\<rparr>)"
  by (simp add: geocode_def Let_def vicService_def queryOf_def orElse_def truthy_def workB_def
      newItem_def demoMeta_def)

theorem failed_geocode_omits_from_map_only_witness:
  "workB \<notin> set (mapView (\<lambda>s. s) vicService [workA, workB] emptyGeo)
   \<and> workA \<in> set (mapView (\<lambda>s. s) vicService [workA, workB] emptyGeo)
   \<and> (''b'', None, ''Alpha'') \<in> set (gridView [workA, workB])
   \<and> (''b'', None, ''Alpha'') \<in> set (listView [workA, workB])
   \<and> (\<exists>p\<in>set (timelineData [workA, workB]). tp_year p = 2020 \<and> workB \<in> set (tp_works p))"
proof -
  have 1: "[workA, workB] = [workA] @ workB # []" by simp
  have 2: "distinct [workA, workB]" by (simp add: workA_def workB_def newItem_def)
  have 3: "queryOf workB \<noteq> []"
    by (simp add: queryOf_def orElse_def truthy_def workB_def newItem_def demoMeta_def)
  note c = failed_geocode_omits_from_map_only [OF 1 2 3 demo_run_pre demo_fail]
  have a: "workB \<notin> set (mapView (\<lambda>s. s) vicService [workA, workB] emptyGeo)"
    using c by (rule conjunct1)
  have "run (\<lambda>s. s) vicService (addresses [workA, workB]) [] emptyGeo
      = run (\<lambda>s. s) vicService (addresses [workB]) (fst (run (\<lambda>s. s) vicService (addresses [workA]) [] emptyGeo))
          (snd (run (\<lambda>s. s) vicService (addresses [workA]) [] emptyGeo))"
    using run_append [of "\<lambda>s. s" vicService "addresses [workA]" "addresses [workB]" "[]" emptyGeo]
      addresses_append [of "[workA]" "[workB]"] by simp
  moreover have "addresses [] = []" by (simp add: addresses_def)
  ultimately have b: "workA \<in> set (mapView (\<lambda>s. s) vicService [workA, workB] emptyGeo)"
    using demo_fail 3 by (simp add: mapView_def demo_run_pre addresses_Cons)
  have "(slug workB, mainImageUrl workB, nom (meta workB)) \<in> set (gridView [workA, workB])"
    using c by blast
  then have g: "(''b'', None, ''Alpha'') \<in> set (gridView [workA, workB])"
    by (simp add: workB_def newItem_def demoMeta_def)
  have "(slug workB, orElse (main2ImageUrl workB) (mainImageUrl workB), nom (meta workB))
      \<in> set (listView [workA, workB])"
    using c by blast
  then have l: "(''b'', None, ''Alpha'') \<in> set (listView [workA, workB])"
    by (simp add: workB_def newItem_def demoMeta_def orElse_def truthy_def)
  have my: "metaYear workB = Some 2020"
    by (simp add: metaYear_def workB_def newItem_def demoMeta_def parseInt_def Let_def
        isWhite_def isDigit_def digitsVal_def digitVal_def)
  have mo: "\<forall>s. monthToIndex (month (meta workB)) \<noteq> Inherited s"
    by (simp add: monthToIndex_def workB_def newItem_def demoMeta_def)
  have t: "\<exists>p\<in>set (timelineData [workA, workB]). tp_year p = 2020 \<and> workB \<in> set (tp_works p)"
    using c my mo by (elim conjE) (drule spec [of _ 2020], simp)
  from a b g l t show ?thesis by (intro conjI)
qed

end
